theory Spec2Isabelle
  imports Main "HOL-Library.Sublist" "HOL-Library.Multiset"
begin

section \<open>Data model of chiefr.go\<close>

text \<open>
  Go errors carry a message (\<^verbatim>\<open>errors.New\<close>, \<^verbatim>\<open>fmt.Errorf\<close>). A run-time panic
  (nil dereference, index out of range) is kept apart from the returned errors.
\<close>

datatype error = Error string | Panic string

text \<open>\<^verbatim>\<open>type ProjectSegment struct\<close>, field by field.\<close>

record ProjectSegment =
  Name :: string
  Repository :: string
  Chat :: string
  MailList :: string
  IssueTracker :: string
  Chiefs :: "string list"
  Reviewers :: "string list"
  FilePatterns :: "string list"
  ContentPatterns :: "string list"
  FileExcludePatterns :: "string list"
  ContentExcludePatterns :: "string list"
  Priority :: int
  Topics :: "string list"

text \<open>
  \<^verbatim>\<open>type ProjectSegments map[string]*ProjectSegment\<close>. A Go map is kept as an association
  list with one entry per key; \<^verbatim>\<open>m[k] = v\<close> is \<open>map_store\<close>, \<^verbatim>\<open>len(m)\<close> is the
  length of the list. The order of the list carries no meaning: the order in which a
  \<^verbatim>\<open>range\<close> statement visits the entries is chosen by the run time (see \<open>map_range\<close>).
\<close>

type_synonym ProjectSegments = "(string \<times> ProjectSegment) list"

fun map_store :: "string \<Rightarrow> 'v \<Rightarrow> (string \<times> 'v) list \<Rightarrow> (string \<times> 'v) list" where
  "map_store k v [] = [(k, v)]"
| "map_store k v ((k', v') # m) =
     (if k' = k then (k, v) # m else (k', v') # map_store k v m)"

record Config =
  Segments :: ProjectSegments

text \<open>
  The parts of go-git's \<^verbatim>\<open>diff.FilePatch\<close> that the program reads: \<^verbatim>\<open>Files()\<close> returns the
  old and the new file, either of which may be nil, and \<^verbatim>\<open>Chunks()\<close> the chunks in order,
  each with its operation (\<^verbatim>\<open>0: Equal, 1: Add, 2: Delete\<close>) and its text.
\<close>

datatype Operation = Equal | Add | Delete

record Chunk =
  Type :: Operation
  Content :: string

record File =
  Path :: string

record FilePatch =
  Files :: "File option \<times> File option"
  Chunks :: "Chunk list"

section \<open>The pattern matcher\<close>

text \<open>
  \<^verbatim>\<open>regexp.MatchString(pattern, s)\<close> belongs to Go's standard library. It returns a pair
  \<^verbatim>\<open>(matched bool, err error)\<close>; \<^verbatim>\<open>err\<close> is non-nil when the pattern does not compile.
  The engine is a parameter of everything below.
\<close>

type_synonym MatchString = "string \<Rightarrow> string \<Rightarrow> bool \<times> error option"

text \<open>
  The inner loop of \<^verbatim>\<open>IsFileNameMatch\<close> and \<^verbatim>\<open>IsConcerned\<close>:
  \<^verbatim>\<open>
  excluded := false
  for _, fep := range excludes {
      if match, err := regexp.MatchString(fep, subject); match && err == nil {
          excluded = true
          break
      }
  }
  \<close>
\<close>

fun excluded :: "MatchString \<Rightarrow> string list \<Rightarrow> string \<Rightarrow> bool" where
  "excluded rx [] subject = False"
| "excluded rx (fep # feps) subject =
     (case rx fep subject of (match, err) \<Rightarrow>
        if match \<and> err = None then True else excluded rx feps subject)"

text \<open>
  The outer loop, shared by both functions:
  \<^verbatim>\<open>
  for _, fp := range includes {
      if match, err := regexp.MatchString(fp, subject); !match || err != nil {
          continue
      }
      ... excluded ...
      if !excluded {
          return true
      }
  }
  return false
  \<close>
\<close>

fun match_loop :: "MatchString \<Rightarrow> string list \<Rightarrow> string list \<Rightarrow> string \<Rightarrow> bool" where
  "match_loop rx [] excludes subject = False"
| "match_loop rx (fp # fps) excludes subject =
     (case rx fp subject of (match, err) \<Rightarrow>
        if \<not> match \<or> err \<noteq> None then match_loop rx fps excludes subject
        else if \<not> excluded rx excludes subject then True
        else match_loop rx fps excludes subject)"

definition IsFileNameMatch :: "MatchString \<Rightarrow> ProjectSegment \<Rightarrow> string \<Rightarrow> bool" where
  "IsFileNameMatch rx s path =
     match_loop rx (FilePatterns s) (FileExcludePatterns s) path"

text \<open>
  \<^verbatim>\<open>buffer.WriteString(chunk.Content())\<close> for every chunk, whatever its type, then
  \<^verbatim>\<open>buffer.String()\<close>.
\<close>

fun write_chunks :: "string \<Rightarrow> Chunk list \<Rightarrow> string" where
  "write_chunks buffer [] = buffer"
| "write_chunks buffer (chunk # chunks) = write_chunks (buffer @ Content chunk) chunks"

definition diffContent :: "FilePatch \<Rightarrow> string" where
  "diffContent p = write_chunks [] (Chunks p)"

definition IsConcerned :: "MatchString \<Rightarrow> ProjectSegment \<Rightarrow> FilePatch \<Rightarrow> string \<Rightarrow> bool" where
  "IsConcerned rx s p path =
     (if IsFileNameMatch rx s path then True
      else match_loop rx (ContentPatterns s) (ContentExcludePatterns s) (diffContent p))"

text \<open>
  A pattern counts for the program only when the engine reports a match and no error;
  \<open>compiles\<close> says that the engine reports no error for a pattern.
\<close>

definition hit :: "MatchString \<Rightarrow> string \<Rightarrow> string \<Rightarrow> bool" where
  "hit rx pat subject = (fst (rx pat subject) \<and> snd (rx pat subject) = None)"

definition compiles :: "MatchString \<Rightarrow> string \<Rightarrow> bool" where
  "compiles rx pat = (\<forall>subject. snd (rx pat subject) = None)"

text \<open>
  A pattern is malformed for an engine that reports an error for it whatever the subject.
\<close>

definition malformed :: "MatchString \<Rightarrow> string \<Rightarrow> bool" where
  "malformed rx pat = (\<forall>subject. snd (rx pat subject) \<noteq> None)"

section \<open>String and slice helpers\<close>

text \<open>
  \<^verbatim>\<open>appendNew(arr *[]string, s string)\<close>: append \<open>s\<close> unless the slice already holds it.
\<close>

definition appendNew :: "string list \<Rightarrow> string \<Rightarrow> string list" where
  "appendNew arr s = (if s \<in> set arr then arr else arr @ [s])"

text \<open>\<^verbatim>\<open>strings.HasPrefix(s, prefix)\<close>: \<^verbatim>\<open>len(s) >= len(prefix) && s[:len(prefix)] == prefix\<close>.\<close>

definition HasPrefix :: "string \<Rightarrow> string \<Rightarrow> bool" where
  "HasPrefix s pre = (length pre \<le> length s \<and> take (length pre) s = pre)"

text \<open>\<^verbatim>\<open>strings.Split(s, sep)\<close> for a separator of one character.\<close>

fun Split :: "string \<Rightarrow> char \<Rightarrow> string list" where
  "Split [] sep = [[]]"
| "Split (c # cs) sep =
     (if c = sep then [] # Split cs sep
      else (case Split cs sep of [] \<Rightarrow> [[c]] | x # xs \<Rightarrow> (c # x) # xs))"

text \<open>\<^verbatim>\<open>strings.Join(elems, sep)\<close>.\<close>

fun Join :: "string list \<Rightarrow> string \<Rightarrow> string" where
  "Join [] sep = []"
| "Join [x] sep = x"
| "Join (x # y # ys) sep = x @ sep @ Join (y # ys) sep"

text \<open>\<^verbatim>\<open>err.Error()\<close>, which is what the verb \<^verbatim>\<open>%s\<close> prints for an error.\<close>

fun message :: "error \<Rightarrow> string" where
  "message (Error m) = m"
| "message (Panic m) = m"

section \<open>The collaborators outside the repository\<close>

text \<open>
  The remote calls of \<^verbatim>\<open>HandlePullRequest\<close> through the go-github client, each with the
  owner, the repository, the number and its payload.
\<close>

datatype call =
    CreateComment string string int string
  | Edit string string int string
  | AddLabelsToIssue string string int "string list"
  | AddAssignees string string int "string list"

text \<open>The one field of \<^verbatim>\<open>url.URL\<close> that the program reads.\<close>

record URL =
  URL_Path :: string

text \<open>
  What the go-git calls of \<^verbatim>\<open>getPatchInfo\<close> come to: \<^verbatim>\<open>git.PlainOpen\<close>, \<^verbatim>\<open>repo.Head\<close>,
  \<^verbatim>\<open>repo.CommitObject\<close>, \<^verbatim>\<open>getCommitByRev\<close> and \<^verbatim>\<open>firstCommit.Patch\<close> in this order; the
  first that fails ends the function, and when all succeed \<^verbatim>\<open>patch.FilePatches()\<close> is
  the list of file patches.
\<close>

datatype vcs =
    OpenFails string
  | HeadFails string
  | HeadCommitFails string
  | RevFails error
  | PatchFails string
  | FilePatches "FilePatch list"

text \<open>
  Everything the program calls and does not define:
  \<^item> \<open>regexp_MatchString\<close>, \<open>url_Parse\<close> and \<open>strconv_Atoi\<close> of the standard library;
  \<^item> \<open>sort_Sort\<close>: \<^verbatim>\<open>sort.Sort\<close> applied to an \<^verbatim>\<open>orderedSegmentList\<close>. It is not stable;
    what it promises is stated by \<open>sort_ok\<close>;
  \<^item> \<open>map_range\<close>: the order in which a \<^verbatim>\<open>range\<close> statement visits the entries of a map.
    Go leaves it unspecified and it may change from one statement to the next, so it
    depends on a number identifying the statement executed; what is certain is stated by
    \<open>range_ok\<close>;
  \<^item> \<open>github\<close>: the answer of the remote tracker to a call, given the calls made before:
    \<open>None\<close> for success, or the error;
  \<^item> \<open>git\<close>: the version-control adapter, for a repository path and a revision.
\<close>

record env =
  regexp_MatchString :: MatchString
  url_Parse :: "string \<Rightarrow> error + URL"
  strconv_Atoi :: "string \<Rightarrow> error + int"
  sort_Sort :: "ProjectSegment list \<Rightarrow> ProjectSegment list"
  map_range :: "nat \<Rightarrow> ProjectSegments \<Rightarrow> ProjectSegments"
  github :: "call list \<Rightarrow> call \<Rightarrow> error option"
  git :: "string \<Rightarrow> string \<Rightarrow> vcs"

text \<open>
  \<^verbatim>\<open>func (o orderedSegmentList) Less(i, j int) bool { return o[i].Priority > o[j].Priority }\<close>
\<close>

definition Less :: "ProjectSegment \<Rightarrow> ProjectSegment \<Rightarrow> bool" where
  "Less a b = (Priority a > Priority b)"

text \<open>
  \<^verbatim>\<open>sort.Sort\<close> permutes the slice so that no element is \<^verbatim>\<open>Less\<close> than one before it.
\<close>

definition sort_ok :: "env \<Rightarrow> bool" where
  "sort_ok E =
     (\<forall>xs. mset (sort_Sort E xs) = mset xs \<and> sorted_wrt (\<lambda>a b. \<not> Less b a) (sort_Sort E xs))"

text \<open>A \<^verbatim>\<open>range\<close> statement visits every entry of the map exactly once.\<close>

definition range_ok :: "env \<Rightarrow> bool" where
  "range_ok E = (\<forall>k m. mset (map_range E k m) = mset m)"

section \<open>The tracker update driver\<close>

text \<open>
  The loop of \<^verbatim>\<open>HandlePullRequest\<close> that fixes \<^verbatim>\<open>repoURL\<close> and gathers topics and chiefs:
  \<^verbatim>\<open>
  repoURL := ""
  for _, s := range segments {
      if repoURL == "" && strings.HasPrefix(u, s.Repository) {
          repoURL = s.Repository
      }
      for _, t := range s.Topics { appendNew(&prTopics, t) }
      for _, c := range s.Chiefs { appendNew(&prChiefs, c) }
  }
  \<close>
  The second argument is the list of segments in the order the \<^verbatim>\<open>range\<close> visits them.
\<close>

fun collect ::
  "string \<Rightarrow> ProjectSegment list \<Rightarrow> string \<times> string list \<times> string list
     \<Rightarrow> string \<times> string list \<times> string list" where
  "collect u [] acc = acc"
| "collect u (s # ss) (repoURL, prTopics, prChiefs) =
     collect u ss
       (if repoURL = [] \<and> HasPrefix u (Repository s) then Repository s else repoURL,
        fold (\<lambda>t arr. appendNew arr t) (Topics s) prTopics,
        fold (\<lambda>c arr. appendNew arr c) (Chiefs s) prChiefs)"

definition redirect_comment :: "string \<Rightarrow> string" where
  "redirect_comment repository =
     ''Hello!'' @ [CHR 0x0A] @
     ''This repository is not responsible for the changes you submitted. Submit your patch to ''
     @ repository"

text \<open>
  The rest of the branch \<^verbatim>\<open>if repoURL == "" { ... }\<close> once \<^verbatim>\<open>close\<close> is known to be set:
  the comment call naming \<^verbatim>\<open>os[0].Repository\<close>, then the edit call that closes the pull
  request. Each result pairs the returned error (\<open>None\<close> for \<^verbatim>\<open>nil\<close>) with the remote
  calls issued, in order.
\<close>

definition redirect_and_close ::
  "env \<Rightarrow> ProjectSegment list \<Rightarrow> string \<Rightarrow> string \<Rightarrow> int \<Rightarrow> error option \<times> call list" where
  "redirect_and_close E os user repo prNum =
     (case os of
        [] \<Rightarrow> (Some (Panic ''index out of range''), [])
      | s0 # _ \<Rightarrow>
          let c1 = CreateComment user repo prNum (redirect_comment (Repository s0)) in
          (case github E [] c1 of
             Some err \<Rightarrow>
               (Some (Error (''Failed to create comment for pull request: '' @ message err)), [c1])
           | None \<Rightarrow>
               let c2 = Edit user repo prNum ''closed'' in
               (case github E [c1] c2 of
                  Some err \<Rightarrow>
                    (Some (Error (''Failed to close pull request: '' @ message err)), [c1, c2])
                | None \<Rightarrow> (None, [c1, c2]))))"

text \<open>The last two calls of \<^verbatim>\<open>HandlePullRequest\<close>: labels, then assignees.\<close>

definition label_and_assign ::
  "env \<Rightarrow> string \<Rightarrow> string \<Rightarrow> int \<Rightarrow> string list \<Rightarrow> string list
     \<Rightarrow> error option \<times> call list" where
  "label_and_assign E user repo prNum prTopics prChiefs =
     (let c1 = AddLabelsToIssue user repo prNum prTopics in
      (case github E [] c1 of
         Some err \<Rightarrow>
           (Some (Error (''Failed to add labels to pull request: '' @ message err)), [c1])
       | None \<Rightarrow>
           let c2 = AddAssignees user repo prNum prChiefs in
           (case github E [c1] c2 of
              Some err \<Rightarrow>
                (Some (Error (''Failed to add assignees to pull request: '' @ message err)), [c1, c2])
            | None \<Rightarrow> (None, [c1, c2]))))"

text \<open>
  \<^verbatim>\<open>func (g *GitHubManager) HandlePullRequest(u string, segments ProjectSegments, close bool) error\<close>,
  statement by statement. The first \<^verbatim>\<open>range\<close> over \<^verbatim>\<open>segments\<close> fills \<^verbatim>\<open>os\<close>, the second
  is the loop \<open>collect\<close>. Building the client issues no call.
\<close>

definition HandlePullRequest ::
  "env \<Rightarrow> string \<Rightarrow> ProjectSegments \<Rightarrow> bool \<Rightarrow> error option \<times> call list" where
  "HandlePullRequest E u segments close =
     (if length segments = 0 then
        (Some (Error ''No matching segments found for this patch. Please edit your maintainers file''), [])
      else
        (let os = sort_Sort E (map snd (map_range E 0 segments)) in
         (case url_Parse E u of
            Inl err \<Rightarrow> (Some (Error (''Failed to parse pull request URL: '' @ message err)), [])
          | Inr URL \<Rightarrow>
             (case collect u (map snd (map_range E 1 segments)) ([], [], []) of
                (repoURL, prTopics, prChiefs) \<Rightarrow>
                  (if length prChiefs = 0 then
                     (Some (Error ''Chiefs not found for this pull request''), [])
                   else
                     (let pathParts = Split (URL_Path URL) (CHR ''/'') in
                      (if length pathParts \<noteq> 5 then
                         (Some (Error ''Invalid pull request URL''), [])
                       else if pathParts ! 3 \<noteq> ''pull'' \<or> pathParts ! 1 = [] \<or> pathParts ! 2 = []
                       then (Some (Error ''Invalid pull request URL''), [])
                       else
                         (let user = pathParts ! 1; repo = pathParts ! 2 in
                          (case strconv_Atoi E (pathParts ! 4) of
                             Inl err \<Rightarrow> (Some (Error ''Invalid pull request URL''), [])
                           | Inr prNum \<Rightarrow>
                               (if repoURL = [] then
                                  (if \<not> close then
                                     (Some (Error ''No repository found for this pull request''), [])
                                   else redirect_and_close E os user repo prNum)
                                else label_and_assign E user repo prNum prTopics prChiefs))))))))))"

section \<open>Loading the configuration\<close>

text \<open>
  A section of the ini file as go-ini hands it over: its name and what \<^verbatim>\<open>s.MapTo(ps)\<close>
  makes of its keys, an error or the fields of the segment. The field \<^verbatim>\<open>Name\<close> is tagged
  \<^verbatim>\<open>ini:"-"\<close>, so it keeps the section name given at construction.
\<close>

record Section =
  Section_Name :: string
  MapTo :: "error + ProjectSegment"

definition wrap_content_pattern :: "string \<Rightarrow> string" where
  "wrap_content_pattern p = ''(?m).*'' @ p @ ''.*''"

text \<open>
  The loop of \<^verbatim>\<open>initMaintainers\<close> over \<^verbatim>\<open>cfg.Sections()\<close>; the inner loop
  \<^verbatim>\<open>ps.ContentPatterns[i] = fmt.Sprintf("(?m).*%s.*", p)\<close> is the \<open>map\<close>.
\<close>

fun load_sections :: "Section list \<Rightarrow> Config \<Rightarrow> error + Config" where
  "load_sections [] c = Inr c"
| "load_sections (s # ss) c =
     (if Section_Name s = ''DEFAULT'' then load_sections ss c
      else
        case MapTo s of
          Inl err \<Rightarrow>
            Inl (Error (''Failed to parse config section '' @ [CHR 0x27] @ Section_Name s
                        @ [CHR 0x27] @ '': '' @ message err))
        | Inr mapped \<Rightarrow>
            let ps = mapped\<lparr>Name := Section_Name s\<rparr> in
            if length (Chiefs ps) = 0 then
              Inl (Error (''Invalid config section '' @ [CHR 0x27] @ Section_Name s
                          @ [CHR 0x27] @ '': missing '' @ [CHR 0x27] @ ''Chiefs''
                          @ [CHR 0x27] @ '' property''))
            else
              load_sections ss
                (c\<lparr>Segments :=
                     map_store (Section_Name s)
                       (ps\<lparr>ContentPatterns := map wrap_content_pattern (ContentPatterns ps)\<rparr>)
                       (Segments c)\<rparr>))"

text \<open>The argument is the result of \<^verbatim>\<open>ini.Load(maintainersFileName)\<close>.\<close>

definition initMaintainers :: "error + Section list \<Rightarrow> error + Config" where
  "initMaintainers loaded =
     (case loaded of
        Inl err \<Rightarrow> Inl (Error (''Failed to initialize maintainers: '' @ message err))
      | Inr sections \<Rightarrow> load_sections sections \<lparr>Segments = []\<rparr>)"

section \<open>The resolution engine\<close>

text \<open>
  The inner loop of \<^verbatim>\<open>getPatchInfo\<close>:
  \<^verbatim>\<open>
  for sName, s := range c.Segments {
      if s.IsConcerned(p, path) {
          relatedSegments[sName] = s
      }
  }
  \<close>
\<close>

fun segment_loop ::
  "MatchString \<Rightarrow> FilePatch \<Rightarrow> string \<Rightarrow> ProjectSegments \<Rightarrow> ProjectSegments
     \<Rightarrow> ProjectSegments" where
  "segment_loop rx p path [] relatedSegments = relatedSegments"
| "segment_loop rx p path ((sName, s) # rest) relatedSegments =
     segment_loop rx p path rest
       (if IsConcerned rx s p path then map_store sName s relatedSegments
        else relatedSegments)"

text \<open>
  The outer loop:
  \<^verbatim>\<open>
  for _, p := range patch.FilePatches() {
      from, to := p.Files()
      if to == nil { to = from }
      path := to.Path()
      appendNew(&paths, path)
      ... inner loop ...
  }
  \<close>
  When both files are nil, \<^verbatim>\<open>to.Path()\<close> dereferences nil. The number \<open>k\<close> counts the
  patches done, and so the \<^verbatim>\<open>range\<close> statements over \<^verbatim>\<open>c.Segments\<close> executed.
\<close>

fun patch_loop ::
  "env \<Rightarrow> Config \<Rightarrow> nat \<Rightarrow> FilePatch list \<Rightarrow> ProjectSegments \<times> string list
     \<Rightarrow> error + ProjectSegments \<times> string list" where
  "patch_loop E c k [] (relatedSegments, paths) = Inr (relatedSegments, paths)"
| "patch_loop E c k (p # ps) (relatedSegments, paths) =
     (case Files p of
        (from, to) \<Rightarrow>
          (case (if to = None then from else to) of
             None \<Rightarrow> Inl (Panic ''nil pointer dereference'')
           | Some f \<Rightarrow>
               patch_loop E c (Suc k) ps
                 (segment_loop (regexp_MatchString E) p (Path f)
                    (map_range E k (Segments c)) relatedSegments,
                  appendNew paths (Path f))))"

definition getPatchInfo ::
  "env \<Rightarrow> Config \<Rightarrow> string \<Rightarrow> string \<Rightarrow> error + ProjectSegments \<times> string list" where
  "getPatchInfo E c repoPath revision =
     (case git E repoPath revision of
        OpenFails e \<Rightarrow>
          Inl (Error (''Failed to open git repository:%!(EXTRA string='' @ e @ '')''))
      | HeadFails e \<Rightarrow> Inl (Error (''Failed to get HEAD of repository: '' @ e))
      | HeadCommitFails e \<Rightarrow> Inl (Error (''Failed to get HEAD commit: '' @ e))
      | RevFails err \<Rightarrow> Inl err
      | PatchFails e \<Rightarrow> Inl (Error (''Failed to create patch: '' @ e))
      | FilePatches patches \<Rightarrow> patch_loop E c 0 patches ([], []))"

text \<open>
  The listing of \<^verbatim>\<open>submit\<close>: the repository of \<^verbatim>\<open>os[i]\<close> is printed unless an earlier
  element of \<^verbatim>\<open>os\<close> has the same one. The first argument is \<^verbatim>\<open>os[:i]\<close>.
\<close>

fun repository_lines :: "ProjectSegment list \<Rightarrow> ProjectSegment list \<Rightarrow> string" where
  "repository_lines before [] = []"
| "repository_lines before (s # rest) =
     (if \<exists>s2 \<in> set before. Repository s2 = Repository s then []
      else '' - '' @ Repository s @ [CHR 0x0A])
     @ repository_lines (before @ [s]) rest"

text \<open>
  \<^verbatim>\<open>func submit(c *Config, repoPath, revision string) error\<close>: the result is the error
  returned, or the text written to standard output. The number given to its \<^verbatim>\<open>range\<close>
  statement only lets its order differ from the orders of the statements before.
\<close>

definition submit :: "env \<Rightarrow> Config \<Rightarrow> string \<Rightarrow> string \<Rightarrow> error + string" where
  "submit E c repoPath revision =
     (case getPatchInfo E c repoPath revision of
        Inl err \<Rightarrow> Inl err
      | Inr (segments, files) \<Rightarrow>
          if length files = 0 then Inl (Error ''No files to submit'')
          else if length segments = 0 then
            Inl (Error ''No matching segments found for this patch'')
          else
            let os = sort_Sort E (map snd (map_range E (length files) segments)) in
            Inr (''The following files are affected by this patch: '' @ Join files '', ''
                 @ [CHR 0x0A, CHR 0x0A]
                 @ ''Please submit your patch to one of the following repositories:''
                 @ [CHR 0x0A, CHR 0x0A]
                 @ repository_lines [] os
                 @ [CHR 0x0A]))"

section \<open>A model of Go's regular expressions\<close>

text \<open>
  \<^verbatim>\<open>regexp.MatchString\<close> is not part of the repository. What follows describes it on a
  fragment of the syntax of package \<^verbatim>\<open>regexp/syntax\<close>, after the documentation of that
  package: literal characters, \<^verbatim>\<open>.\<close>, \<^verbatim>\<open>^\<close>, \<^verbatim>\<open>$\<close>, groups in parentheses, alternation
  with \<^verbatim>\<open>|\<close>, the operators \<^verbatim>\<open>*\<close>, \<^verbatim>\<open>+\<close> and \<^verbatim>\<open>?\<close> after a character, a dot or a group, and
  the flag group \<^verbatim>\<open>(?m)\<close> at the very start of the pattern, and a quotation that a
  backslash followed by \<^verbatim>\<open>Q\<close> opens and nothing closes. Patterns and subjects are ASCII, so
  that a character is a byte and a rune at once.
\<close>

text \<open>
  The parsed expression, with the names of the operators of \<^verbatim>\<open>regexp/syntax\<close>.
  \<open>OpCaret\<close> and \<open>OpDollar\<close> stand for \<^verbatim>\<open>^\<close> and \<^verbatim>\<open>$\<close>; whether they mean the ends of the
  text or of a line is decided by the flag \<^verbatim>\<open>m\<close>, which is an argument of the matcher.
\<close>

datatype regex =
    OpLiteral char | OpAnyCharNotNL | OpCaret | OpDollar
  | OpStar regex | OpPlus regex | OpQuest regex
  | OpEmptyMatch | OpConcat regex regex | OpAlternate regex regex

definition newline :: char where
  "newline = CHR 0x0A"

text \<open>
  Where \<^verbatim>\<open>^\<close> and \<^verbatim>\<open>$\<close> hold at position \<open>i\<close> of the subject: at the start, at the end of the
  text and, when the flag \<^verbatim>\<open>m\<close> is set (\<open>ml\<close>), also after and before a newline.
\<close>

definition begin_of_line :: "bool \<Rightarrow> string \<Rightarrow> nat \<Rightarrow> bool" where
  "begin_of_line ml subj i = (i = 0 \<or> ml \<and> subj ! (i - 1) = newline)"

definition end_of_line :: "bool \<Rightarrow> string \<Rightarrow> nat \<Rightarrow> bool" where
  "end_of_line ml subj i = (i = length subj \<or> ml \<and> subj ! i = newline)"

text \<open>
  \<open>match_ends ml subj r i\<close> lists the positions where a match of \<open>r\<close> that starts at
  position \<open>i\<close> of \<open>subj\<close> can end. A dot matches every character but the newline. A
  repetition only repeats matches that consume something, so that \<open>star_ends\<close> needs at
  most as many rounds as characters are left.
\<close>

primrec star_ends :: "nat \<Rightarrow> (nat \<Rightarrow> nat list) \<Rightarrow> nat \<Rightarrow> nat list" where
  "star_ends 0 f i = [i]"
| "star_ends (Suc n) f i = i # concat (map (star_ends n f) (filter (\<lambda>k. i < k) (f i)))"

primrec match_ends :: "bool \<Rightarrow> string \<Rightarrow> regex \<Rightarrow> nat \<Rightarrow> nat list" where
  "match_ends ml subj (OpLiteral c) i = (if i < length subj \<and> subj ! i = c then [Suc i] else [])"
| "match_ends ml subj OpAnyCharNotNL i = (if i < length subj \<and> subj ! i \<noteq> newline then [Suc i] else [])"
| "match_ends ml subj OpCaret i = (if i \<le> length subj \<and> begin_of_line ml subj i then [i] else [])"
| "match_ends ml subj OpDollar i = (if i \<le> length subj \<and> end_of_line ml subj i then [i] else [])"
| "match_ends ml subj OpEmptyMatch i = (if i \<le> length subj then [i] else [])"
| "match_ends ml subj (OpConcat r1 r2) i = concat (map (match_ends ml subj r2) (match_ends ml subj r1 i))"
| "match_ends ml subj (OpAlternate r1 r2) i = match_ends ml subj r1 i @ match_ends ml subj r2 i"
| "match_ends ml subj (OpStar r) i =
     (if i \<le> length subj then star_ends (length subj - i) (match_ends ml subj r) i else [])"
| "match_ends ml subj (OpPlus r) i =
     concat (map (\<lambda>k. star_ends (length subj - k) (match_ends ml subj r) k) (match_ends ml subj r i))"
| "match_ends ml subj (OpQuest r) i = (if i \<le> length subj then i # match_ends ml subj r i else [])"

text \<open>\<^verbatim>\<open>MatchString\<close> searches: the match may start and end anywhere in the subject.\<close>

definition regex_search :: "bool \<Rightarrow> regex \<Rightarrow> string \<Rightarrow> bool" where
  "regex_search ml r subj = (\<exists>i \<in> set [0..<Suc (length subj)]. match_ends ml subj r i \<noteq> [])"


text \<open>
  The same matching as a relation, for the proofs: \<open>match_at ml subj r i j\<close> holds when
  \<open>r\<close> matches \<open>subj\<close> from position \<open>i\<close> to position \<open>j\<close>.
\<close>

inductive match_at :: "bool \<Rightarrow> string \<Rightarrow> regex \<Rightarrow> nat \<Rightarrow> nat \<Rightarrow> bool"
  for ml :: bool and subj :: string where
    m_Lit: "i < length subj \<Longrightarrow> subj ! i = c \<Longrightarrow> match_at ml subj (OpLiteral c) i (Suc i)"
  | m_Dot: "i < length subj \<Longrightarrow> subj ! i \<noteq> newline \<Longrightarrow> match_at ml subj OpAnyCharNotNL i (Suc i)"
  | m_Bol: "i \<le> length subj \<Longrightarrow> begin_of_line ml subj i \<Longrightarrow> match_at ml subj OpCaret i i"
  | m_Eol: "i \<le> length subj \<Longrightarrow> end_of_line ml subj i \<Longrightarrow> match_at ml subj OpDollar i i"
  | m_Eps: "i \<le> length subj \<Longrightarrow> match_at ml subj OpEmptyMatch i i"
  | m_Cat: "match_at ml subj r1 i k \<Longrightarrow> match_at ml subj r2 k j \<Longrightarrow>
            match_at ml subj (OpConcat r1 r2) i j"
  | m_AltL: "match_at ml subj r1 i j \<Longrightarrow> match_at ml subj (OpAlternate r1 r2) i j"
  | m_AltR: "match_at ml subj r2 i j \<Longrightarrow> match_at ml subj (OpAlternate r1 r2) i j"
  | m_Star0: "i \<le> length subj \<Longrightarrow> match_at ml subj (OpStar r) i i"
  | m_StarS: "match_at ml subj r i k \<Longrightarrow> i < k \<Longrightarrow> match_at ml subj (OpStar r) k j \<Longrightarrow>
              match_at ml subj (OpStar r) i j"
  | m_Plus: "match_at ml subj r i k \<Longrightarrow> match_at ml subj (OpStar r) k j \<Longrightarrow>
             match_at ml subj (OpPlus r) i j"
  | m_Opt0: "i \<le> length subj \<Longrightarrow> match_at ml subj (OpQuest r) i i"
  | m_OptS: "match_at ml subj r i j \<Longrightarrow> match_at ml subj (OpQuest r) i j"

definition ascii :: "string \<Rightarrow> bool" where
  "ascii s = (\<forall>c \<in> set s. (of_char c :: nat) < 128)"

text \<open>
  The parser of \<^verbatim>\<open>regexp/syntax\<close> reads the pattern from left to right and keeps a stack.
  Here a frame of the stack belongs to the pattern as a whole (the bottom frame) or to a
  group that is open; it holds the alternatives of the group that are finished, the
  pieces of the alternative being read, and whether a repetition operator may follow.
\<close>

fun concat_of :: "regex list \<Rightarrow> regex" where
  "concat_of [] = OpEmptyMatch"
| "concat_of (p # ps) = OpConcat p (concat_of ps)"

fun alternate_of :: "regex list \<Rightarrow> regex" where
  "alternate_of [] = OpEmptyMatch"
| "alternate_of [a] = a"
| "alternate_of (a # b # bs) = OpAlternate a (alternate_of (b # bs))"

type_synonym frame = "regex list \<times> regex list \<times> bool"

datatype repeat = RStar | RPlus | RQuest

fun repeated :: "repeat \<Rightarrow> regex \<Rightarrow> regex" where
  "repeated RStar r = OpStar r"
| "repeated RPlus r = OpPlus r"
| "repeated RQuest r = OpQuest r"

text \<open>
  The characters as the parser sees them outside a quotation. A repetition operator may
  follow a literal, a dot and a group. Brackets, braces and the escapes that a backslash
  starts are not modelled, nor is a repetition operator after \<^verbatim>\<open>^\<close> or \<^verbatim>\<open>$\<close>.
\<close>

datatype token = TLeftParen | TRightParen | TVerticalBar | TRepeat repeat | TOperand regex bool | TOutside

definition token_of :: "char \<Rightarrow> token" where
  "token_of c =
     (if c = CHR ''('' then TLeftParen
      else if c = CHR '')'' then TRightParen
      else if c = CHR ''|'' then TVerticalBar
      else if c = CHR ''*'' then TRepeat RStar
      else if c = CHR ''+'' then TRepeat RPlus
      else if c = CHR ''?'' then TRepeat RQuest
      else if c = CHR ''.'' then TOperand OpAnyCharNotNL True
      else if c = CHR ''^'' then TOperand OpCaret False
      else if c = CHR ''$'' then TOperand OpDollar False
      else if c = CHR 0x5C \<or> c \<in> set ''[]{}'' then TOutside
      else TOperand (OpLiteral c) True)"

text \<open>
  One step of the parser. It gives up (\<open>None\<close>) on what Go rejects within the fragment
  (a repetition operator with nothing before it or after another one, a closing
  parenthesis that nothing opened) and also on what Go accepts but the model leaves out
  (an empty alternative, an empty group, a lazy operator such as \<^verbatim>\<open>*?\<close>, a flag group
  inside the pattern).
\<close>

fun apply_token :: "token \<Rightarrow> frame list \<Rightarrow> frame list option" where
  "apply_token t [] = None"
| "apply_token TLeftParen (f # st) = Some (([], [], False) # f # st)"
| "apply_token TRightParen [f] = None"
| "apply_token TRightParen ((fin, cur, rep) # (fin', cur', rep') # st) =
     (if cur = [] then None
      else Some ((fin', cur' @ [alternate_of (fin @ [concat_of cur])], True) # st))"
| "apply_token TVerticalBar ((fin, cur, rep) # st) =
     (if cur = [] then None else Some ((fin @ [concat_of cur], [], False) # st))"
| "apply_token (TRepeat k) ((fin, cur, rep) # st) =
     (if rep \<and> cur \<noteq> []
      then Some ((fin, butlast cur @ [repeated k (last cur)], False) # st) else None)"
| "apply_token (TOperand a r) ((fin, cur, rep) # st) = Some ((fin, cur @ [a], r) # st)"
| "apply_token TOutside (f # st) = None"

definition parse_step :: "frame list \<Rightarrow> char \<Rightarrow> frame list option" where
  "parse_step st c = apply_token (token_of c) st"

fun parse_run :: "frame list \<Rightarrow> string \<Rightarrow> frame list option" where
  "parse_run st [] = Some st"
| "parse_run st (c # cs) = (case parse_step st c of None \<Rightarrow> None | Some st' \<Rightarrow> parse_run st' cs)"

definition backslash :: char where
  "backslash = CHR 0x5C"

text \<open>
  A backslash followed by \<^verbatim>\<open>Q\<close> opens a quotation: the parser of \<^verbatim>\<open>regexp/syntax\<close> takes
  what follows as literal text, up to a backslash followed by \<^verbatim>\<open>E\<close> or, when there is
  none, up to the end of the pattern. \<open>open_quotation s\<close> cuts a pattern whose only
  backslash opens a quotation into what stands before the quotation and the quoted text.
\<close>

fun open_quotation :: "string \<Rightarrow> (string \<times> string) option" where
  "open_quotation [] = None"
| "open_quotation [c] = None"
| "open_quotation (c # d # s) =
     (if c = backslash then (if d = CHR ''Q'' \<and> backslash \<notin> set s then Some ([], s) else None)
      else map_option (\<lambda>(pre, lit). (c # pre, lit)) (open_quotation (d # s)))"

text \<open>
  The quoted text is pushed as literals after what the parser has read before it. At the
  end of the pattern every group must be closed.
\<close>

definition parse_body :: "string \<Rightarrow> regex option" where
  "parse_body s =
     (let (unquoted, lit) = (case open_quotation s of Some q \<Rightarrow> q | None \<Rightarrow> (s, [])) in
      case parse_run [([], [], False)] unquoted of
        Some [(fin, cur, rep)] \<Rightarrow>
          if cur = [] \<and> lit = [] then None
          else Some (alternate_of (fin @ [concat_of (cur @ map OpLiteral lit)]))
      | _ \<Rightarrow> None)"

text \<open>
  \<open>go_syntax pat\<close> is the flag \<^verbatim>\<open>m\<close> and the expression of a pattern of the fragment, and
  \<open>None\<close> for every other pattern, about which the model says nothing, be it malformed
  or not. Patterns of more than 500 characters are left out, which keeps clear of the
  limits that Go puts on the nesting and the size of an expression.
\<close>

definition go_syntax :: "string \<Rightarrow> (bool \<times> regex) option" where
  "go_syntax pat =
     (if 500 < length pat \<or> \<not> ascii pat then None
      else if prefix ''(?m)'' pat then map_option (Pair True) (parse_body (drop 4 pat))
      else map_option (Pair False) (parse_body pat))"



definition pre_frame :: "frame \<Rightarrow> frame" where
  "pre_frame f =
     (case f of (fin, cur, rep) \<Rightarrow>
        (case fin of [] \<Rightarrow> ([], OpStar OpAnyCharNotNL # cur, rep)
                   | a # rest \<Rightarrow> (OpConcat (OpStar OpAnyCharNotNL) a # rest, cur, rep)))"

fun pre_stack :: "frame list \<Rightarrow> frame list" where
  "pre_stack [] = []"
| "pre_stack [f] = [pre_frame f]"
| "pre_stack (f # g # st) = f # pre_stack (g # st)"

section \<open>Notions of the specification\<close>

text \<open>
  The effective path of a file patch is that of the new file, or of the old file when
  the patch is a deletion.
\<close>

definition effective :: "FilePatch \<Rightarrow> File option" where
  "effective p = (case Files p of (from, to) \<Rightarrow> if to = None then from else to)"

text \<open>
  The names of the configured segments that are concerned by some patch of a changeset,
  and the effective paths of a changeset.
\<close>

definition concerned_names :: "MatchString \<Rightarrow> Config \<Rightarrow> FilePatch list \<Rightarrow> string set" where
  "concerned_names rx c ps =
     {n. \<exists>p \<in> set ps. \<exists>f s. effective p = Some f \<and> (n, s) \<in> set (Segments c) \<and>
           IsConcerned rx s p (Path f)}"

definition effective_paths :: "FilePatch list \<Rightarrow> string set" where
  "effective_paths ps = {Path f |p f. p \<in> set ps \<and> effective p = Some f}"

text \<open>
  A segment owns a URL when its repository is not the empty string and is a prefix of
  the URL.
\<close>

definition owning :: "string \<Rightarrow> ProjectSegment \<Rightarrow> bool" where
  "owning u s = (Repository s \<noteq> [] \<and> HasPrefix u (Repository s))"

text \<open>
  The shape that the specification demands of the path of a pull-request URL:
  \<^verbatim>\<open>{host}/{owner}/{repo}/pull/{number}\<close>, with an owner and a repository that are not
  empty and a number that \<^verbatim>\<open>strconv.Atoi\<close> accepts.
\<close>

definition decomposes :: "env \<Rightarrow> URL \<Rightarrow> bool" where
  "decomposes E U =
     (case Split (URL_Path U) (CHR ''/'') of
        [host, owner, repo, pull, number] \<Rightarrow>
          pull = ''pull'' \<and> owner \<noteq> [] \<and> repo \<noteq> [] \<and> \<not> isl (strconv_Atoi E number)
      | _ \<Rightarrow> False)"

text \<open>
  What the specification describes for a pull request that no segment owns, when closing
  is asked for: the comment call \<open>c1\<close>; if it fails, its error and nothing more; if it
  succeeds, the edit call \<open>c2\<close>, and its error if it fails.
\<close>

definition comment_then_close :: "env \<Rightarrow> call \<Rightarrow> call \<Rightarrow> error option \<times> call list" where
  "comment_then_close E c1 c2 =
     (case github E [] c1 of
        Some err \<Rightarrow>
          (Some (Error (''Failed to create comment for pull request: '' @ message err)), [c1])
      | None \<Rightarrow>
         (case github E [c1] c2 of
            Some err \<Rightarrow>
              (Some (Error (''Failed to close pull request: '' @ message err)), [c1, c2])
          | None \<Rightarrow> (None, [c1, c2])))"

text \<open>
  A plain text occurs on a line of a text when one of the lines, the text being cut at
  the newline characters, contains it.
\<close>

definition occurs_on_a_line :: "string \<Rightarrow> string \<Rightarrow> bool" where
  "occurs_on_a_line P text = (\<exists>line \<in> set (Split text (CHR 0x0A)). sublist P line)"

section \<open>A concrete environment\<close>

text \<open>
  Stand-ins for the collaborators, used to instantiate the theorems at concrete inputs:
  an insertion sort by \<open>Less\<close>, a parser that takes the path of an \<^verbatim>\<open>https\<close> URL, a
  parser of unsigned decimal numbers, a \<^verbatim>\<open>range\<close> that visits the entries as listed, and
  a tracker that accepts every call.
\<close>

text \<open>
  An engine used to instantiate the theorems at concrete inputs: a pattern that contains
  an opening bracket is rejected as malformed, a pattern of the shape \<^verbatim>\<open>(?m).*L.*\<close> is
  searched as the text \<open>L\<close> line by line, and any other pattern is searched as it is
  written.
\<close>

definition unwrap :: "string \<Rightarrow> string option" where
  "unwrap pat =
     (if prefix ''(?m).*'' pat \<and> suffix ''.*'' pat \<and> 8 \<le> length pat
      then Some (take (length pat - 8) (drop 6 pat)) else None)"

definition literal_engine :: MatchString where
  "literal_engine pat subject =
     (if CHR ''['' \<in> set pat then (False, Some (Error ''error parsing regexp''))
      else case unwrap pat of
             Some l \<Rightarrow> (occurs_on_a_line l subject, None)
           | None \<Rightarrow> (sublist pat subject, None))"

fun insert_segment :: "ProjectSegment \<Rightarrow> ProjectSegment list \<Rightarrow> ProjectSegment list" where
  "insert_segment s [] = [s]"
| "insert_segment s (x # xs) = (if Less x s then x # insert_segment s xs else s # x # xs)"

fun insertion_sort :: "ProjectSegment list \<Rightarrow> ProjectSegment list" where
  "insertion_sort [] = []"
| "insertion_sort (x # xs) = insert_segment x (insertion_sort xs)"

definition https_Parse :: "string \<Rightarrow> error + URL" where
  "https_Parse u =
     (if HasPrefix u ''https://''
      then Inr \<lparr>URL_Path = dropWhile (\<lambda>c. c \<noteq> CHR ''/'') (drop 8 u)\<rparr>
      else Inl (Error ''unsupported scheme''))"

definition digit_value :: "char \<Rightarrow> int option" where
  "digit_value c =
     (let v = (of_char c :: nat) in
      if 48 \<le> v \<and> v \<le> 57 then Some (int v - 48) else None)"

fun decimal :: "int \<Rightarrow> string \<Rightarrow> int option" where
  "decimal n [] = Some n"
| "decimal n (c # cs) =
     (case digit_value c of None \<Rightarrow> None | Some d \<Rightarrow> decimal (10 * n + d) cs)"

definition decimal_Atoi :: "string \<Rightarrow> error + int" where
  "decimal_Atoi s =
     (if s = [] then Inl (Error ''invalid syntax'')
      else case decimal 0 s of None \<Rightarrow> Inl (Error ''invalid syntax'') | Some n \<Rightarrow> Inr n)"

definition plain_env :: env where
  "plain_env =
     \<lparr>regexp_MatchString = literal_engine,
      url_Parse = https_Parse,
      strconv_Atoi = decimal_Atoi,
      sort_Sort = insertion_sort,
      map_range = (\<lambda>k m. m),
      github = (\<lambda>log c. None),
      git = (\<lambda>repoPath revision. FilePatches [])\<rparr>"

text \<open>The zero value \<^verbatim>\<open>ProjectSegment{}\<close>, from which the example segments are built.\<close>

definition zero_segment :: ProjectSegment where
  "zero_segment =
     \<lparr>Name = [], Repository = [], Chat = [], MailList = [], IssueTracker = [],
      Chiefs = [], Reviewers = [], FilePatterns = [], ContentPatterns = [],
      FileExcludePatterns = [], ContentExcludePatterns = [], Priority = 0, Topics = []\<rparr>"

text \<open>Two example segments whose repositories are both prefixes of one pull-request URL.\<close>

definition seg_widgets :: ProjectSegment where
  "seg_widgets =
     zero_segment\<lparr>Name := ''widgets'', Repository := ''https://github.com/acme/widgets'',
       Chiefs := [''alice''], Priority := 5, Topics := [''ui'']\<rparr>"

definition seg_acme :: ProjectSegment where
  "seg_acme =
     zero_segment\<lparr>Name := ''acme'', Repository := ''https://github.com/acme'',
       Chiefs := [''bob''], Topics := [''org'']\<rparr>"

text \<open>
  The two segments of the scenario of the specification, with patterns written for the
  engine above, and three file patches.
\<close>

definition seg_docs :: ProjectSegment where
  "seg_docs =
     zero_segment\<lparr>Name := ''docs'', Repository := ''https://x/docs'', Chiefs := [''alice''],
       FilePatterns := [''.md'']\<rparr>"

definition seg_code :: ProjectSegment where
  "seg_code =
     zero_segment\<lparr>Name := ''code'', Repository := ''https://x/code'', Chiefs := [''bob''],
       FilePatterns := [''.go''], Priority := 1\<rparr>"

definition patch_readme :: FilePatch where
  "patch_readme =
     \<lparr>Files = (Some \<lparr>Path = ''README.md''\<rparr>, Some \<lparr>Path = ''README.md''\<rparr>),
      Chunks = [\<lparr>Type = Add, Content = ''usage''\<rparr>]\<rparr>"

definition patch_main :: FilePatch where
  "patch_main =
     \<lparr>Files = (Some \<lparr>Path = ''main.go''\<rparr>, None),
      Chunks = [\<lparr>Type = Delete, Content = ''package main''\<rparr>]\<rparr>"

definition patch_licence :: FilePatch where
  "patch_licence =
     \<lparr>Files = (None, Some \<lparr>Path = ''LICENCE''\<rparr>),
      Chunks = [\<lparr>Type = Add, Content = ''All rights reserved''\<rparr>]\<rparr>"

text \<open>The environment above with a version-control adapter that yields the given patches.\<close>

definition env_with_patches :: "FilePatch list \<Rightarrow> env" where
  "env_with_patches ps = plain_env\<lparr>git := (\<lambda>repoPath revision. FilePatches ps)\<rparr>"



definition patch_notes :: FilePatch where
  "patch_notes =
     \<lparr>Files = (None, Some \<lparr>Path = ''notes.txt''\<rparr>),
      Chunks = [\<lparr>Type = Equal, Content = ''first line'' @ [CHR 0x0A]\<rparr>,
                \<lparr>Type = Add, Content = ''a TODO item'' @ [CHR 0x0A]\<rparr>]\<rparr>"

text \<open>
  An engine that implements the model and rejects every pattern outside the fragment, a
  section whose content pattern is a regular expression anchored at the start of a line,
  and a patch whose chunks put that expression together across their border.
\<close>

definition fragment_engine :: MatchString where
  "fragment_engine pat subj =
     (case go_syntax pat of
        Some (ml, r) \<Rightarrow> (regex_search ml r subj, None)
      | None \<Rightarrow> (False, Some (Error ''pattern outside the modelled syntax'')))"



text \<open>
  A section whose content pattern opens a quotation before the word \<^verbatim>\<open>TODO\<close> and does not
  close it.
\<close>

definition quoted_section :: Section where
  "quoted_section =
     \<lparr>Section_Name = ''quoted'',
      MapTo = Inr (zero_segment\<lparr>Chiefs := [''erin''],
                                ContentPatterns := [backslash # ''QTODO'']\<rparr>)\<rparr>"

section \<open>Properties of the pattern matcher\<close>

lemma excluded_iff: "excluded rx excs subject \<longleftrightarrow> (\<exists>e \<in> set excs. hit rx e subject)"
  by (induction excs) (auto simp: hit_def split: prod.splits)

lemma match_loop_iff:
  "match_loop rx incs excs subject \<longleftrightarrow>
     (\<exists>i \<in> set incs. hit rx i subject) \<and> \<not> excluded rx excs subject"
  by (induction incs) (auto simp: hit_def split: prod.splits)

lemma write_chunks_concat:
  "write_chunks buffer chunks = buffer @ concat (map Content chunks)"
  by (induction chunks arbitrary: buffer) auto

lemma diffContent_concat: "diffContent p = concat (map Content (Chunks p))"
  by (simp add: diffContent_def write_chunks_concat)

lemma hit_compiles: "compiles rx pat \<Longrightarrow> hit rx pat subject = fst (rx pat subject)"
  by (simp add: hit_def compiles_def)

lemma hit_malformed: "malformed rx pat \<Longrightarrow> \<not> hit rx pat subject"
  by (simp add: hit_def malformed_def)

lemma compiles_literal: "CHR ''['' \<notin> set pat \<Longrightarrow> compiles literal_engine pat"
  by (simp add: compiles_def literal_engine_def split: option.splits)

lemma malformed_literal: "CHR ''['' \<in> set pat \<Longrightarrow> malformed literal_engine pat"
  by (simp add: malformed_def literal_engine_def)

lemma IsFileNameMatch_hit:
  "IsFileNameMatch rx S P \<longleftrightarrow>
     (\<exists>fp \<in> set (FilePatterns S). hit rx fp P) \<and>
     (\<forall>fep \<in> set (FileExcludePatterns S). \<not> hit rx fep P)"
  by (simp add: IsFileNameMatch_def match_loop_iff excluded_iff)

lemma IsConcerned_hit:
  "IsConcerned rx S p path \<longleftrightarrow>
     IsFileNameMatch rx S path \<or>
     ((\<exists>cp \<in> set (ContentPatterns S). hit rx cp (diffContent p)) \<and>
      (\<forall>cep \<in> set (ContentExcludePatterns S). \<not> hit rx cep (diffContent p)))"
  by (simp add: IsConcerned_def match_loop_iff excluded_iff)

text \<open>
  Claim C2. When every file pattern of a segment compiles, \<open>IsFileNameMatch\<close> is true
  exactly when some entry of \<open>FilePatterns\<close> matches the path and no entry of
  \<open>FileExcludePatterns\<close> matches it, and the result does not change when the exclude
  patterns are listed in another order. What "matches" means (an unanchored search) is
  the engine's business.
\<close>

theorem IsFileNameMatch_include_and_not_exclude:
  assumes "\<forall>pat \<in> set (FilePatterns S) \<union> set (FileExcludePatterns S). compiles rx pat"
    and "mset feps = mset (FileExcludePatterns S)"
  shows "(IsFileNameMatch rx S P \<longleftrightarrow>
            (\<exists>fp \<in> set (FilePatterns S). fst (rx fp P)) \<and>
            (\<forall>fep \<in> set (FileExcludePatterns S). \<not> fst (rx fep P))) \<and>
         IsFileNameMatch rx (S\<lparr>FileExcludePatterns := feps\<rparr>) P = IsFileNameMatch rx S P"
proof -
  have "set feps = set (FileExcludePatterns S)"
    using assms(2) by (rule mset_eq_setD)
  then show ?thesis
    using assms(1) by (auto simp: IsFileNameMatch_hit hit_compiles)
qed

theorem IsFileNameMatch_include_and_not_exclude_witness:
  "IsFileNameMatch literal_engine
     (zero_segment\<lparr>FilePatterns := [''.md'', ''.go''],
                   FileExcludePatterns := [''vendor/'', ''_test'']\<rparr>)
     ''cmd/main.go'' \<and>
   \<not> IsFileNameMatch literal_engine
     (zero_segment\<lparr>FilePatterns := [''.md'', ''.go''],
                   FileExcludePatterns := [''_test'', ''vendor/'']\<rparr>)
     ''vendor/x/y.go''"
proof -
  let ?S = "zero_segment\<lparr>FilePatterns := [''.md'', ''.go''],
                         FileExcludePatterns := [''vendor/'', ''_test'']\<rparr>"
  have c: "\<forall>pat \<in> set (FilePatterns ?S) \<union> set (FileExcludePatterns ?S).
             compiles literal_engine pat"
    by (simp add: compiles_literal)
  have m: "mset [''_test'', ''vendor/''] = mset (FileExcludePatterns ?S)"
    by simp
  have e: "fst (literal_engine ''.go'' ''cmd/main.go'')"
      "\<not> fst (literal_engine ''vendor/'' ''cmd/main.go'')"
      "\<not> fst (literal_engine ''_test'' ''cmd/main.go'')"
      "fst (literal_engine ''vendor/'' ''vendor/x/y.go'')"
    by (simp_all add: literal_engine_def unwrap_def sublist_code)
  show ?thesis
    using IsFileNameMatch_include_and_not_exclude [OF c m, of "''cmd/main.go''"]
      IsFileNameMatch_include_and_not_exclude [OF c m, of "''vendor/x/y.go''"] e
    by auto
qed

text \<open>
  Claim C3. A malformed pattern in any of the four pattern lists does not make
  \<open>IsFileNameMatch\<close> or \<open>IsConcerned\<close> fail (both return a truth value, there is no
  error result): wherever it stands in its list, the result is the one obtained without
  it, so it acts as a pattern that matches nothing, a malformed exclude pattern excludes
  nothing, and the patterns before and after it are evaluated as usual.
\<close>

theorem malformed_pattern_matches_nothing:
  assumes "malformed rx bad"
  shows "IsFileNameMatch rx (S\<lparr>FilePatterns := xs @ bad # ys\<rparr>) path =
           IsFileNameMatch rx (S\<lparr>FilePatterns := xs @ ys\<rparr>) path \<and>
         IsFileNameMatch rx (S\<lparr>FileExcludePatterns := xs @ bad # ys\<rparr>) path =
           IsFileNameMatch rx (S\<lparr>FileExcludePatterns := xs @ ys\<rparr>) path \<and>
         IsConcerned rx (S\<lparr>FilePatterns := xs @ bad # ys\<rparr>) p path =
           IsConcerned rx (S\<lparr>FilePatterns := xs @ ys\<rparr>) p path \<and>
         IsConcerned rx (S\<lparr>FileExcludePatterns := xs @ bad # ys\<rparr>) p path =
           IsConcerned rx (S\<lparr>FileExcludePatterns := xs @ ys\<rparr>) p path \<and>
         IsConcerned rx (S\<lparr>ContentPatterns := xs @ bad # ys\<rparr>) p path =
           IsConcerned rx (S\<lparr>ContentPatterns := xs @ ys\<rparr>) p path \<and>
         IsConcerned rx (S\<lparr>ContentExcludePatterns := xs @ bad # ys\<rparr>) p path =
           IsConcerned rx (S\<lparr>ContentExcludePatterns := xs @ ys\<rparr>) p path"
proof -
  have bad: "\<not> hit rx bad subject" for subject
    using assms by (rule hit_malformed)
  have f1: "IsFileNameMatch rx (S\<lparr>FilePatterns := xs @ bad # ys\<rparr>) path =
           IsFileNameMatch rx (S\<lparr>FilePatterns := xs @ ys\<rparr>) path"
    by (auto simp: IsFileNameMatch_hit bad)
  have f2: "IsFileNameMatch rx (S\<lparr>FileExcludePatterns := xs @ bad # ys\<rparr>) path =
           IsFileNameMatch rx (S\<lparr>FileExcludePatterns := xs @ ys\<rparr>) path"
    by (auto simp: IsFileNameMatch_hit bad)
  have c1: "IsConcerned rx (S\<lparr>FilePatterns := xs @ bad # ys\<rparr>) p path =
           IsConcerned rx (S\<lparr>FilePatterns := xs @ ys\<rparr>) p path"
    by (simp add: IsConcerned_hit f1)
  have c2: "IsConcerned rx (S\<lparr>FileExcludePatterns := xs @ bad # ys\<rparr>) p path =
           IsConcerned rx (S\<lparr>FileExcludePatterns := xs @ ys\<rparr>) p path"
    by (simp add: IsConcerned_hit f2)
  have c3: "IsConcerned rx (S\<lparr>ContentPatterns := xs @ bad # ys\<rparr>) p path =
           IsConcerned rx (S\<lparr>ContentPatterns := xs @ ys\<rparr>) p path"
    by (auto simp: IsConcerned_hit IsFileNameMatch_hit bad)
  have c4: "IsConcerned rx (S\<lparr>ContentExcludePatterns := xs @ bad # ys\<rparr>) p path =
           IsConcerned rx (S\<lparr>ContentExcludePatterns := xs @ ys\<rparr>) p path"
    by (auto simp: IsConcerned_hit IsFileNameMatch_hit bad)
  show ?thesis using f1 f2 c1 c2 c3 c4 by blast
qed

theorem malformed_pattern_matches_nothing_witness:
  "malformed literal_engine ''[a-'' \<and>
   IsFileNameMatch literal_engine
     (zero_segment\<lparr>FilePatterns := [''.go''],
                   FileExcludePatterns := [''[a-'', ''vendor/'']\<rparr>) ''main.go'' \<and>
   IsConcerned literal_engine
     (zero_segment\<lparr>ContentPatterns := [''[a-'', ''TODO'']\<rparr>)
     \<lparr>Files = (None, Some \<lparr>Path = ''notes.txt''\<rparr>),
      Chunks = [\<lparr>Type = Add, Content = ''a TODO item''\<rparr>]\<rparr>
     ''notes.txt''"
proof -
  have m: "malformed literal_engine ''[a-''"
    by (simp add: malformed_literal)
  have a: "IsFileNameMatch literal_engine
     (zero_segment\<lparr>FilePatterns := [''.go''], FileExcludePatterns := [''vendor/'']\<rparr>)
     ''main.go''"
    by (simp add: IsFileNameMatch_def zero_segment_def literal_engine_def unwrap_def
        sublist_code)
  have b: "IsConcerned literal_engine
     (zero_segment\<lparr>ContentPatterns := [''TODO'']\<rparr>)
     \<lparr>Files = (None, Some \<lparr>Path = ''notes.txt''\<rparr>),
      Chunks = [\<lparr>Type = Add, Content = ''a TODO item''\<rparr>]\<rparr>
     ''notes.txt''"
    by (simp add: IsConcerned_def IsFileNameMatch_def diffContent_def zero_segment_def
        literal_engine_def unwrap_def sublist_code)
  show ?thesis
    using m a b
      malformed_pattern_matches_nothing [OF m,
        where S = "zero_segment\<lparr>FilePatterns := [''.go'']\<rparr>" and xs = "[]"
          and ys = "[''vendor/'']" and path = "''main.go''"]
      malformed_pattern_matches_nothing [OF m,
        where S = "zero_segment" and xs = "[]" and ys = "[''TODO'']"
          and path = "''notes.txt''"
          and p = "\<lparr>Files = (None, Some \<lparr>Path = ''notes.txt''\<rparr>),
                   Chunks = [\<lparr>Type = Add, Content = ''a TODO item''\<rparr>]\<rparr>"]
    by simp
qed

text \<open>
  Claim C4. \<open>IsConcerned\<close> is true whenever the file name matches, whatever the patch
  holds, so the content is consulted only when the file name does not match. In that case
  it is true exactly when some entry of \<open>ContentPatterns\<close> matches the buffer and no entry
  of \<open>ContentExcludePatterns\<close> matches it, the buffer being the texts of all chunks, of
  whatever type, concatenated in chunk order.
\<close>

theorem IsConcerned_filename_then_content:
  "(IsFileNameMatch rx S path \<longrightarrow> IsConcerned rx S p path \<and> IsConcerned rx S p' path) \<and>
   (\<not> IsFileNameMatch rx S path \<longrightarrow>
      (IsConcerned rx S p path \<longleftrightarrow>
         (\<exists>cp \<in> set (ContentPatterns S). hit rx cp (diffContent p)) \<and>
         (\<forall>cep \<in> set (ContentExcludePatterns S). \<not> hit rx cep (diffContent p)))) \<and>
   diffContent p = concat (map Content (Chunks p))"
  using IsConcerned_hit [of rx S p path] IsConcerned_hit [of rx S p' path]
  by (simp add: diffContent_concat)

theorem IsConcerned_filename_then_content_witness:
  "\<not> IsFileNameMatch literal_engine
       (zero_segment\<lparr>FilePatterns := [''.go''], ContentPatterns := [''TODO''],
                     ContentExcludePatterns := [''WONTFIX'']\<rparr>) ''notes.txt'' \<and>
   diffContent
     \<lparr>Files = (None, Some \<lparr>Path = ''notes.txt''\<rparr>),
      Chunks = [\<lparr>Type = Equal, Content = ''a TO''\<rparr>, \<lparr>Type = Delete, Content = ''DO ''\<rparr>,
                \<lparr>Type = Add, Content = ''item''\<rparr>]\<rparr> = ''a TODO item'' \<and>
   IsConcerned literal_engine
     (zero_segment\<lparr>FilePatterns := [''.go''], ContentPatterns := [''TODO''],
                   ContentExcludePatterns := [''WONTFIX'']\<rparr>)
     \<lparr>Files = (None, Some \<lparr>Path = ''notes.txt''\<rparr>),
      Chunks = [\<lparr>Type = Equal, Content = ''a TO''\<rparr>, \<lparr>Type = Delete, Content = ''DO ''\<rparr>,
                \<lparr>Type = Add, Content = ''item''\<rparr>]\<rparr>
     ''notes.txt'' \<and>
   IsFileNameMatch literal_engine
       (zero_segment\<lparr>FilePatterns := [''.go''], ContentPatterns := [''TODO''],
                     ContentExcludePatterns := [''WONTFIX'']\<rparr>) ''main.go'' \<and>
   IsConcerned literal_engine
     (zero_segment\<lparr>FilePatterns := [''.go''], ContentPatterns := [''TODO''],
                   ContentExcludePatterns := [''WONTFIX'']\<rparr>)
     \<lparr>Files = (None, Some \<lparr>Path = ''main.go''\<rparr>), Chunks = []\<rparr>
     ''main.go''"
proof -
  let ?S = "zero_segment\<lparr>FilePatterns := [''.go''], ContentPatterns := [''TODO''],
                         ContentExcludePatterns := [''WONTFIX'']\<rparr>"
  let ?p = "\<lparr>Files = (None, Some \<lparr>Path = ''notes.txt''\<rparr>),
       Chunks = [\<lparr>Type = Equal, Content = ''a TO''\<rparr>, \<lparr>Type = Delete, Content = ''DO ''\<rparr>,
                 \<lparr>Type = Add, Content = ''item''\<rparr>]\<rparr>"
  let ?q = "\<lparr>Files = (None, Some \<lparr>Path = ''main.go''\<rparr>), Chunks = []\<rparr>"
  have n: "\<not> IsFileNameMatch literal_engine ?S ''notes.txt''"
      "IsFileNameMatch literal_engine ?S ''main.go''"
    by (simp_all add: IsFileNameMatch_def zero_segment_def literal_engine_def unwrap_def
        sublist_code)
  have d: "diffContent ?p = ''a TODO item''"
    by (simp add: diffContent_def)
  have h: "hit literal_engine ''TODO'' ''a TODO item''"
      "\<not> hit literal_engine ''WONTFIX'' ''a TODO item''"
    by (simp_all add: hit_def literal_engine_def unwrap_def sublist_code)
  show ?thesis
    using IsConcerned_filename_then_content [of literal_engine ?S "''notes.txt''" ?p ?p]
      IsConcerned_filename_then_content [of literal_engine ?S "''main.go''" ?q ?q] n d h
    by simp
qed

section \<open>Properties of the repository-targeting loop\<close>

lemma HasPrefix_Nil: "HasPrefix u []"
  by (simp add: HasPrefix_def)

lemma owning_step:
  "(if repoURL = [] \<and> HasPrefix u (Repository s) then Repository s else repoURL) =
     (if repoURL = [] \<and> owning u s then Repository s else repoURL)"
  unfolding owning_def by auto

lemma collect_repoURL:
  "fst (collect u ss (repoURL, prTopics, prChiefs)) =
     (if repoURL \<noteq> [] then repoURL
      else case find (owning u) ss of None \<Rightarrow> [] | Some s \<Rightarrow> Repository s)"
proof (induction ss arbitrary: repoURL prTopics prChiefs)
  case Nil
  then show ?case by simp
next
  case (Cons s ss)
  have "owning u s \<Longrightarrow> Repository s \<noteq> []"
    by (simp add: owning_def)
  then show ?case
    unfolding collect.simps owning_step Cons.IH by auto
qed

lemma collect_match_iff:
  "fst (collect u ss ([], [], [])) \<noteq> [] \<longleftrightarrow> (\<exists>s \<in> set ss. owning u s)"
proof (cases "find (owning u) ss")
  case None
  then have "\<forall>s \<in> set ss. \<not> owning u s"
    by (auto simp: find_None_iff)
  then show ?thesis using None by (simp add: collect_repoURL)
next
  case (Some s)
  then have "owning u s" "s \<in> set ss"
    by (auto simp: find_Some_iff)
  moreover from this have "Repository s \<noteq> []" by (simp add: owning_def)
  ultimately show ?thesis using Some by (auto simp: collect_repoURL)
qed

lemma find_skip: "\<not> P s \<Longrightarrow> find P (xs @ s # ys) = find P (xs @ ys)"
  by (induction xs) auto

lemma collect_skip_empty:
  assumes "Repository s = []"
  shows "fst (collect u (xs @ s # ys) ([], [], [])) = fst (collect u (xs @ ys) ([], [], []))"
proof -
  have "\<not> owning u s" using assms by (simp add: owning_def)
  then show ?thesis by (simp add: collect_repoURL find_skip)
qed

lemma range_ok_set: "range_ok E \<Longrightarrow> set (map_range E k m) = set m"
  by (metis range_ok_def mset_eq_setD)

text \<open>
  Claim C1, as amended. \<^verbatim>\<open>repoURL\<close> is the repository of the first segment, in the order
  in which the \<^verbatim>\<open>range\<close> statement visits the map of segments, that owns the URL, and
  the empty string when there is none. The priorities of the segments play no part in it.
\<close>

theorem repoURL_first_in_range_order:
  "fst (collect u (map snd (map_range E 1 segments)) ([], [], [])) =
     (case find (owning u) (map snd (map_range E 1 segments)) of
        None \<Rightarrow> [] | Some s \<Rightarrow> Repository s)"
  by (simp add: collect_repoURL)

text \<open>
  Claim C1, as stated, fails: with the segments \<open>seg_acme\<close> (priority 0) and
  \<open>seg_widgets\<close> (priority 5), whose repositories are both prefixes of the URL, and a
  \<^verbatim>\<open>range\<close> that visits \<open>seg_acme\<close> first, the sorted list \<^verbatim>\<open>os\<close> starts with
  \<open>seg_widgets\<close> and yet \<^verbatim>\<open>repoURL\<close> is the repository of \<open>seg_acme\<close>.
\<close>

theorem repoURL_not_by_priority:
  "sort_Sort plain_env
     (map snd (map_range plain_env 0 [(''acme'', seg_acme), (''widgets'', seg_widgets)]))
     = [seg_widgets, seg_acme] \<and>
   HasPrefix ''https://github.com/acme/widgets/pull/42'' (Repository seg_widgets) \<and>
   HasPrefix ''https://github.com/acme/widgets/pull/42'' (Repository seg_acme) \<and>
   fst (collect ''https://github.com/acme/widgets/pull/42''
          (map snd (map_range plain_env 1 [(''acme'', seg_acme), (''widgets'', seg_widgets)]))
          ([], [], []))
     = Repository seg_acme \<and>
   Repository seg_acme \<noteq> Repository seg_widgets"
  by (simp add: plain_env_def seg_acme_def seg_widgets_def zero_segment_def Less_def
      HasPrefix_def)

text \<open>
  Claim C10. The loop reports a match (\<^verbatim>\<open>repoURL\<close> is not empty) exactly when some
  segment of the map has a repository that is not the empty string and is a prefix of the
  URL. The empty string is a prefix of every URL, yet a segment with an empty repository
  establishes no match, and removing it from the visiting order changes nothing, so it
  does not keep a later segment from matching.
\<close>

theorem match_iff_nonempty_prefix:
  assumes "range_ok E"
  shows "(fst (collect u (map snd (map_range E 1 segments)) ([], [], [])) \<noteq> [] \<longleftrightarrow>
           (\<exists>s \<in> snd ` set segments. Repository s \<noteq> [] \<and> HasPrefix u (Repository s))) \<and>
         HasPrefix u [] \<and>
         (Repository s = [] \<longrightarrow>
            fst (collect u [s] ([], [], [])) = [] \<and>
            fst (collect u (xs @ s # ys) ([], [], [])) = fst (collect u (xs @ ys) ([], [], [])))"
proof -
  have "set (map snd (map_range E 1 segments)) = snd ` set segments"
    using assms by (simp add: range_ok_set)
  then have "fst (collect u (map snd (map_range E 1 segments)) ([], [], [])) \<noteq> [] \<longleftrightarrow>
           (\<exists>s \<in> snd ` set segments. owning u s)"
    by (simp only: collect_match_iff)
  then show ?thesis
    by (simp add: owning_def HasPrefix_Nil collect_skip_empty
        collect_skip_empty [where xs = "[]" and ys = "[]", simplified])
qed

lemma range_ok_plain: "range_ok plain_env"
  by (simp add: range_ok_def plain_env_def)

lemma mset_insert_segment: "mset (insert_segment s xs) = add_mset s (mset xs)"
  by (induction xs) auto

lemma mset_insertion_sort: "mset (insertion_sort xs) = mset xs"
  by (induction xs) (auto simp: mset_insert_segment)

lemma set_insert_segment: "set (insert_segment s xs) = insert s (set xs)"
  by (induction xs) auto

lemma sorted_insert_segment:
  "sorted_wrt (\<lambda>a b. \<not> Less b a) xs \<Longrightarrow> sorted_wrt (\<lambda>a b. \<not> Less b a) (insert_segment s xs)"
  by (induction xs) (auto simp: set_insert_segment Less_def)

lemma sorted_insertion_sort: "sorted_wrt (\<lambda>a b. \<not> Less b a) (insertion_sort xs)"
  by (induction xs) (auto simp: sorted_insert_segment)

lemma sort_ok_plain: "sort_ok plain_env"
  by (simp add: sort_ok_def plain_env_def mset_insertion_sort sorted_insertion_sort)

lemma set_fold_appendNew:
  "set (fold (\<lambda>x arr. appendNew arr x) xs arr) = set arr \<union> set xs"
  by (induction xs arbitrary: arr) (auto simp: appendNew_def)

lemma collect_chiefs:
  "set (snd (snd (collect u ss (repoURL, prTopics, prChiefs)))) =
     set prChiefs \<union> (\<Union>s \<in> set ss. set (Chiefs s))"
  by (induction ss arbitrary: repoURL prTopics prChiefs) (auto simp: set_fold_appendNew)

lemma collect_chiefs_empty:
  "snd (snd (collect u ss ([], [], []))) = [] \<longleftrightarrow> (\<forall>s \<in> set ss. Chiefs s = [])"
proof -
  have "snd (snd (collect u ss ([], [], []))) = [] \<longleftrightarrow>
        set (snd (snd (collect u ss ([], [], [])))) = {}"
    by simp
  also have "\<dots> \<longleftrightarrow> (\<forall>s \<in> set ss. Chiefs s = [])"
    unfolding collect_chiefs by auto
  finally show ?thesis .
qed

theorem match_iff_nonempty_prefix_witness:
  "range_ok plain_env \<and>
   fst (collect ''https://github.com/acme/widgets/pull/42''
          (map snd (map_range plain_env 1
             [(''advisory'', zero_segment), (''widgets'', seg_widgets)]))
          ([], [], [])) \<noteq> []"
  using match_iff_nonempty_prefix [OF range_ok_plain,
      of "''https://github.com/acme/widgets/pull/42''"
         "[(''advisory'', zero_segment), (''widgets'', seg_widgets)]"]
  by (simp add: range_ok_plain seg_widgets_def zero_segment_def HasPrefix_def)

section \<open>Properties of the tracker update driver\<close>

lemma sort_ok_top:
  assumes "sort_ok E" "xs \<noteq> []"
  obtains top rest where "sort_Sort E xs = top # rest" "top \<in> set xs"
    "\<forall>s \<in> set xs. Priority s \<le> Priority top"
proof -
  have m: "mset (sort_Sort E xs) = mset xs"
    and srt: "sorted_wrt (\<lambda>a b. \<not> Less b a) (sort_Sort E xs)"
    using assms(1) by (simp_all add: sort_ok_def)
  from m have st: "set (sort_Sort E xs) = set xs" by (rule mset_eq_setD)
  with assms(2) obtain top rest where os: "sort_Sort E xs = top # rest"
    by (cases "sort_Sort E xs") auto
  have "top \<in> set xs" using st os by auto
  moreover have "\<forall>s \<in> set xs. Priority s \<le> Priority top"
  proof
    fix s assume "s \<in> set xs"
    then have "s = top \<or> s \<in> set rest" using st os by auto
    moreover have "\<forall>b \<in> set rest. \<not> Less b top" using srt os by simp
    ultimately show "Priority s \<le> Priority top" by (auto simp: Less_def)
  qed
  ultimately show ?thesis using os that by blast
qed

lemma HandlePullRequest_bad_shape:
  assumes "url_Parse E u = Inr U" "\<not> decomposes E U"
  shows "HandlePullRequest E u segments close =
     (if segments = [] then
        (Some (Error ''No matching segments found for this patch. Please edit your maintainers file''), [])
      else if snd (snd (collect u (map snd (map_range E 1 segments)) ([], [], []))) = [] then
        (Some (Error ''Chiefs not found for this pull request''), [])
      else (Some (Error ''Invalid pull request URL''), []))"
proof -
  obtain r t c where col: "collect u (map snd (map_range E 1 segments)) ([], [], []) = (r, t, c)"
    by (cases "collect u (map snd (map_range E 1 segments)) ([], [], [])") auto
  show ?thesis
  proof (cases "length (Split (URL_Path U) (CHR ''/'')) = 5")
    case False
    then show ?thesis
      using assms(1) col by (simp add: HandlePullRequest_def Let_def)
  next
    case True
    then obtain h a b p n where sp: "Split (URL_Path U) (CHR ''/'') = [h, a, b, p, n]"
      by (auto simp: length_Suc_conv eval_nat_numeral)
    with assms(2) have "p \<noteq> ''pull'' \<or> a = [] \<or> b = [] \<or> isl (strconv_Atoi E n)"
      by (auto simp: decomposes_def)
    then show ?thesis
      using assms(1) col sp
      by (auto simp: HandlePullRequest_def Let_def isl_def split: sum.splits)
  qed
qed

text \<open>
  Claim C7, as amended. When the URL parses and its path does not decompose into
  \<^verbatim>\<open>{host}/{owner}/{repo}/pull/{number}\<close>, \<open>HandlePullRequest\<close> makes no remote call and
  returns the error of the first check that fails: "No matching segments found for this
  patch. Please edit your maintainers file" when the segment set is empty, otherwise
  "Chiefs not found for this pull request" when the chiefs gathered by the loop are none,
  which for a \<^verbatim>\<open>range\<close> that visits every segment means that no segment has a chief, and
  otherwise "Invalid pull request URL".
\<close>

theorem malformed_URL_no_remote_call:
  assumes "url_Parse E u = Inr U" and "\<not> decomposes E U"
  shows "HandlePullRequest E u segments close =
           (if segments = [] then
              (Some (Error ''No matching segments found for this patch. Please edit your maintainers file''), [])
            else if snd (snd (collect u (map snd (map_range E 1 segments)) ([], [], []))) = [] then
              (Some (Error ''Chiefs not found for this pull request''), [])
            else (Some (Error ''Invalid pull request URL''), [])) \<and>
         (range_ok E \<longrightarrow>
            (snd (snd (collect u (map snd (map_range E 1 segments)) ([], [], []))) = [] \<longleftrightarrow>
               (\<forall>s \<in> snd ` set segments. Chiefs s = [])))"
proof -
  have "snd (snd (collect u (map snd (map_range E 1 segments)) ([], [], []))) = [] \<longleftrightarrow>
          (\<forall>s \<in> snd ` set segments. Chiefs s = [])"
    if "range_ok E"
  proof -
    have "set (map snd (map_range E 1 segments)) = snd ` set segments"
      using that by (simp add: range_ok_set)
    then show ?thesis by (simp only: collect_chiefs_empty)
  qed
  then show ?thesis
    using HandlePullRequest_bad_shape [OF assms, of segments close] by blast
qed

theorem malformed_URL_no_remote_call_witness:
  "url_Parse plain_env ''https://github.com/acme/widgets/pull/42/files'' =
     Inr \<lparr>URL_Path = ''/acme/widgets/pull/42/files''\<rparr> \<and>
   \<not> decomposes plain_env \<lparr>URL_Path = ''/acme/widgets/pull/42/files''\<rparr> \<and>
   range_ok plain_env \<and>
   HandlePullRequest plain_env ''https://github.com/acme/widgets/pull/42/files''
     [(''widgets'', seg_widgets)] True = (Some (Error ''Invalid pull request URL''), []) \<and>
   HandlePullRequest plain_env ''https://github.com/acme/widgets/pull/42/files''
     [(''advisory'', zero_segment)] True =
     (Some (Error ''Chiefs not found for this pull request''), []) \<and>
   HandlePullRequest plain_env ''https://github.com/acme/widgets/pull/42/files'' [] True =
     (Some (Error ''No matching segments found for this patch. Please edit your maintainers file''), [])"
proof -
  have p: "url_Parse plain_env ''https://github.com/acme/widgets/pull/42/files'' =
     Inr \<lparr>URL_Path = ''/acme/widgets/pull/42/files''\<rparr>"
    by (simp add: plain_env_def https_Parse_def HasPrefix_def)
  have d: "\<not> decomposes plain_env \<lparr>URL_Path = ''/acme/widgets/pull/42/files''\<rparr>"
    by (simp add: decomposes_def)
  have c: "\<not> (\<forall>s \<in> snd ` set [(''widgets'', seg_widgets)]. Chiefs s = [])"
    "\<forall>s \<in> snd ` set [(''advisory'', zero_segment)]. Chiefs s = []"
    by (simp_all add: seg_widgets_def zero_segment_def)
  show ?thesis
    using malformed_URL_no_remote_call [OF p d, of "[(''widgets'', seg_widgets)]" True]
      malformed_URL_no_remote_call [OF p d, of "[(''advisory'', zero_segment)]" True]
      malformed_URL_no_remote_call [OF p d, of "[]" True]
      p d c range_ok_plain
    by simp
qed


text \<open>
  Claim C7, as stated, fails: with an empty segment set and a URL whose path has no
  \<^verbatim>\<open>pull\<close> part, the error returned is the one of the first check, not
  "Invalid pull request URL".
\<close>

theorem malformed_URL_other_error:
  "url_Parse plain_env ''https://github.com/acme/widgets'' = Inr \<lparr>URL_Path = ''/acme/widgets''\<rparr> \<and>
   \<not> decomposes plain_env \<lparr>URL_Path = ''/acme/widgets''\<rparr> \<and>
   HandlePullRequest plain_env ''https://github.com/acme/widgets'' [] False =
     (Some (Error ''No matching segments found for this patch. Please edit your maintainers file''), []) \<and>
   fst (HandlePullRequest plain_env ''https://github.com/acme/widgets'' [] False) \<noteq>
     Some (Error ''Invalid pull request URL'')"
  by (simp add: HandlePullRequest_def plain_env_def https_Parse_def HasPrefix_def decomposes_def)

text \<open>
  Claim C8, as amended. When the checks made before pass (the segment set is not empty,
  some segment has a chief, the URL parses and its path is
  \<^verbatim>\<open>{host}/{owner}/{repo}/pull/{number}\<close>), no repository of a segment is a prefix of the URL
  and closing is asked for, \<open>HandlePullRequest\<close> makes one comment call whose text names
  the repository of a segment of highest priority; if that call fails its error is
  returned and nothing else is called; if it succeeds, one edit call follows that sets
  the state to closed.
\<close>

theorem unowned_comment_then_close:
  assumes "range_ok E" and "sort_ok E"
    and "segments \<noteq> []"
    and "\<exists>s \<in> snd ` set segments. Chiefs s \<noteq> []"
    and "url_Parse E u = Inr U"
    and "Split (URL_Path U) (CHR ''/'') = [host, user, repo, ''pull'', number]"
    and "user \<noteq> []" and "repo \<noteq> []"
    and "strconv_Atoi E number = Inr prNum"
    and "\<forall>s \<in> snd ` set segments. \<not> HasPrefix u (Repository s)"
  shows "\<exists>top \<in> snd ` set segments.
           (\<forall>s \<in> snd ` set segments. Priority s \<le> Priority top) \<and>
           HandlePullRequest E u segments True =
             comment_then_close E
               (CreateComment user repo prNum (redirect_comment (Repository top)))
               (Edit user repo prNum ''closed'')"
proof -
  have s0: "set (map snd (map_range E 0 segments)) = snd ` set segments"
    and s1: "set (map snd (map_range E 1 segments)) = snd ` set segments"
    using assms(1) by (simp_all add: range_ok_set)
  have ne: "map snd (map_range E 0 segments) \<noteq> []"
    using s0 assms(3) by (metis empty_set image_is_empty set_empty)
  obtain top rest where os: "sort_Sort E (map snd (map_range E 0 segments)) = top # rest"
    and top: "top \<in> snd ` set segments" "\<forall>s \<in> snd ` set segments. Priority s \<le> Priority top"
    using sort_ok_top [OF assms(2) ne] s0 by metis
  obtain r t c where col: "collect u (map snd (map_range E 1 segments)) ([], [], []) = (r, t, c)"
    by (cases "collect u (map snd (map_range E 1 segments)) ([], [], [])") auto
  have "\<not> (\<exists>s \<in> set (map snd (map_range E 1 segments)). owning u s)"
    unfolding s1 using assms(10) by (auto simp: owning_def)
  then have r: "r = []"
    using collect_match_iff [of u "map snd (map_range E 1 segments)"] col by simp
  have "\<not> (\<forall>s \<in> set (map snd (map_range E 1 segments)). Chiefs s = [])"
    unfolding s1 using assms(4) by auto
  then have c: "c \<noteq> []"
    using collect_chiefs_empty [of u "map snd (map_range E 1 segments)"] col by simp
  have "HandlePullRequest E u segments True =
          redirect_and_close E (top # rest) user repo prNum"
    using assms(3,5,6,7,8,9) col r c os
    by (simp add: HandlePullRequest_def Let_def)
  also have "\<dots> = comment_then_close E
               (CreateComment user repo prNum (redirect_comment (Repository top)))
               (Edit user repo prNum ''closed'')"
    by (simp add: redirect_and_close_def comment_then_close_def Let_def split: option.splits)
  finally show ?thesis using top by blast
qed

theorem unowned_comment_then_close_witness:
  "range_ok plain_env \<and> sort_ok plain_env \<and>
   HandlePullRequest plain_env ''https://github.com/other/repo/pull/42''
     [(''acme'', seg_acme), (''widgets'', seg_widgets)] True =
     (None,
      [CreateComment ''other'' ''repo'' 42 (redirect_comment ''https://github.com/acme/widgets''),
       Edit ''other'' ''repo'' 42 ''closed''])"
proof -
  let ?u = "''https://github.com/other/repo/pull/42''"
  let ?segs = "[(''acme'', seg_acme), (''widgets'', seg_widgets)]"
  have a3: "?segs \<noteq> []" by simp
  have a4: "\<exists>s \<in> snd ` set ?segs. Chiefs s \<noteq> []"
    by (simp add: seg_acme_def zero_segment_def)
  have a5: "url_Parse plain_env ?u = Inr \<lparr>URL_Path = ''/other/repo/pull/42''\<rparr>"
    by (simp add: plain_env_def https_Parse_def HasPrefix_def)
  have a6: "Split (URL_Path \<lparr>URL_Path = ''/other/repo/pull/42''\<rparr>) (CHR ''/'') =
              ['''', ''other'', ''repo'', ''pull'', ''42'']"
    by simp
  have a7: "''other'' \<noteq> []" "''repo'' \<noteq> []" by simp_all
  have a9: "strconv_Atoi plain_env ''42'' = Inr 42"
    by (simp add: plain_env_def decimal_Atoi_def digit_value_def)
  have a10: "\<forall>s \<in> snd ` set ?segs. \<not> HasPrefix ?u (Repository s)"
    by (simp add: seg_acme_def seg_widgets_def zero_segment_def HasPrefix_def)
  have p: "Priority seg_acme < Priority seg_widgets"
    by (simp add: seg_acme_def seg_widgets_def zero_segment_def)
  have g: "github plain_env log c = None" for log c
    by (simp add: plain_env_def)
  have r: "Repository seg_widgets = ''https://github.com/acme/widgets''"
    by (simp add: seg_widgets_def zero_segment_def)
  from unowned_comment_then_close [OF range_ok_plain sort_ok_plain a3 a4 a5 a6 a7 a9 a10]
  obtain top where "top \<in> snd ` set ?segs"
    "\<forall>s \<in> snd ` set ?segs. Priority s \<le> Priority top"
    "HandlePullRequest plain_env ?u ?segs True =
       comment_then_close plain_env
         (CreateComment ''other'' ''repo'' 42 (redirect_comment (Repository top)))
         (Edit ''other'' ''repo'' 42 ''closed'')"
    by blast
  moreover from this(1,2) p have "top = seg_widgets" by auto
  ultimately show ?thesis
    using range_ok_plain sort_ok_plain by (simp add: comment_then_close_def g r)
qed

text \<open>
  Claim C8, as stated, fails: for the address of the files view of a pull request, whose
  path has a sixth part, no repository of a segment is a prefix and closing is asked for,
  yet no comment call is made.
\<close>

theorem unowned_malformed_URL_no_comment:
  "\<not> HasPrefix ''https://github.com/other/repo/pull/42/files'' (Repository seg_acme) \<and>
   HandlePullRequest plain_env ''https://github.com/other/repo/pull/42/files''
     [(''acme'', seg_acme)] True = (Some (Error ''Invalid pull request URL''), [])"
  by (simp add: HandlePullRequest_def plain_env_def https_Parse_def HasPrefix_def
      seg_acme_def zero_segment_def appendNew_def)


section \<open>Properties of the resolution engine\<close>

lemma keys_map_store: "fst ` set (map_store k v m) = insert k (fst ` set m)"
  by (induction m) (force split: if_splits)+

lemma distinct_map_store: "distinct (map fst m) \<Longrightarrow> distinct (map fst (map_store k v m))"
proof (induction m)
  case Nil
  then show ?case by simp
next
  case (Cons e m)
  obtain k' v' where e: "e = (k', v')" by (cases e)
  from Cons have "distinct (map fst (map_store k v m))" "k' \<notin> fst ` set m" by (auto simp: e)
  then show ?case
    using Cons.prems by (auto simp: e keys_map_store)
qed

lemma keys_segment_loop:
  "fst ` set (segment_loop rx p path segs related) =
     fst ` set related \<union> {n. \<exists>s. (n, s) \<in> set segs \<and> IsConcerned rx s p path}"
proof (induction segs arbitrary: related)
  case Nil
  then show ?case by simp
next
  case (Cons e segs)
  obtain n s where e: "e = (n, s)" by (cases e)
  show ?case
    unfolding e segment_loop.simps Cons.IH
    by (cases "IsConcerned rx s p path") (auto simp: keys_map_store)
qed

lemma distinct_segment_loop:
  "distinct (map fst related) \<Longrightarrow> distinct (map fst (segment_loop rx p path segs related))"
  by (induction segs arbitrary: related) (auto simp: distinct_map_store)

lemma set_appendNew: "set (appendNew arr s) = insert s (set arr)"
  by (auto simp: appendNew_def)

lemma distinct_appendNew: "distinct arr \<Longrightarrow> distinct (appendNew arr s)"
  by (auto simp: appendNew_def)

lemma patch_loop_panic:
  "\<exists>p \<in> set ps. effective p = None \<Longrightarrow>
   patch_loop E c k ps acc = Inl (Panic ''nil pointer dereference'')"
proof (induction ps arbitrary: k acc)
  case Nil
  then show ?case by simp
next
  case (Cons p ps)
  obtain related paths where acc: "acc = (related, paths)" by (cases acc)
  show ?case
  proof (cases "effective p")
    case None
    then show ?thesis
      by (auto simp: acc effective_def split: prod.splits if_splits)
  next
    case (Some f)
    with Cons.prems have "\<exists>p \<in> set ps. effective p = None" by auto
    from Cons.IH [OF this] Some show ?thesis
      by (auto simp: acc effective_def split: prod.splits if_splits)
  qed
qed

lemma patch_loop_result:
  assumes "range_ok E" "\<forall>p \<in> set ps. effective p \<noteq> None"
  shows "\<exists>related' paths'.
           patch_loop E c k ps (related, paths) = Inr (related', paths') \<and>
           fst ` set related' =
             fst ` set related \<union> concerned_names (regexp_MatchString E) c ps \<and>
           set paths' = set paths \<union> effective_paths ps \<and>
           (distinct (map fst related) \<longrightarrow> distinct (map fst related')) \<and>
           (distinct paths \<longrightarrow> distinct paths')"
  using assms(2)
proof (induction ps arbitrary: k related paths)
  case Nil
  then show ?case by (simp add: concerned_names_def effective_paths_def)
next
  case (Cons p ps)
  then obtain f where f: "effective p = Some f" by auto
  let ?rel = "segment_loop (regexp_MatchString E) p (Path f) (map_range E k (Segments c)) related"
  let ?paths = "appendNew paths (Path f)"
  have step: "patch_loop E c k (p # ps) (related, paths) = patch_loop E c (Suc k) ps (?rel, ?paths)"
    using f by (auto simp: effective_def split: prod.splits if_splits)
  from Cons.prems have "\<forall>p \<in> set ps. effective p \<noteq> None" by simp
  from Cons.IH [OF this, of "Suc k" ?rel ?paths]
  obtain related' paths' where r:
    "patch_loop E c (Suc k) ps (?rel, ?paths) = Inr (related', paths')"
    "fst ` set related' = fst ` set ?rel \<union> concerned_names (regexp_MatchString E) c ps"
    "set paths' = set ?paths \<union> effective_paths ps"
    "distinct (map fst ?rel) \<longrightarrow> distinct (map fst related')"
    "distinct ?paths \<longrightarrow> distinct paths'"
    by blast
  have rng: "set (map_range E k (Segments c)) = set (Segments c)"
    using assms(1) by (rule range_ok_set)
  have k1: "fst ` set ?rel \<union> concerned_names (regexp_MatchString E) c ps =
        fst ` set related \<union> concerned_names (regexp_MatchString E) c (p # ps)"
    unfolding keys_segment_loop rng concerned_names_def using f by auto
  have k2: "set ?paths \<union> effective_paths ps = set paths \<union> effective_paths (p # ps)"
    unfolding set_appendNew effective_paths_def using f by auto
  show ?case
    unfolding step using r k1 k2
    by (auto simp: distinct_segment_loop distinct_appendNew)
qed

lemma concerned_names_cong: "set ps' = set ps \<Longrightarrow> concerned_names rx c ps' = concerned_names rx c ps"
  by (simp add: concerned_names_def)

lemma effective_paths_cong: "set ps' = set ps \<Longrightarrow> effective_paths ps' = effective_paths ps"
  by (simp add: effective_paths_def)

text \<open>
  Claim C5. Take two runs of \<open>getPatchInfo\<close> on the same configuration whose changesets
  hold the same file patches in different orders. If one run stops (a patch with neither
  file), so does the other. Otherwise both return, the names of the resolved segments are
  the same set and the affected paths are the same set; the resolved names are exactly the
  names of the segments concerned by some patch, each listed once, and the affected paths
  are exactly the effective paths of the patches, each listed once.
\<close>

theorem resolution_independent_of_patch_order:
  assumes "range_ok E" and "range_ok E'"
    and "regexp_MatchString E' = regexp_MatchString E"
    and "git E repoPath revision = FilePatches ps"
    and "git E' repoPath revision = FilePatches ps'"
    and "mset ps' = mset ps"
  shows "case getPatchInfo E c repoPath revision of
           Inl err \<Rightarrow> getPatchInfo E' c repoPath revision = Inl err
         | Inr (segments, paths) \<Rightarrow>
             (\<exists>segments' paths'.
                getPatchInfo E' c repoPath revision = Inr (segments', paths') \<and>
                set (map fst segments') = set (map fst segments) \<and>
                set paths' = set paths \<and>
                distinct (map fst segments') \<and> distinct paths') \<and>
             set (map fst segments) = concerned_names (regexp_MatchString E) c ps \<and>
             distinct (map fst segments) \<and>
             set paths = effective_paths ps \<and>
             distinct paths"
proof -
  have st: "set ps' = set ps" using assms(6) by (rule mset_eq_setD)
  have g: "getPatchInfo E c repoPath revision = patch_loop E c 0 ps ([], [])"
    "getPatchInfo E' c repoPath revision = patch_loop E' c 0 ps' ([], [])"
    using assms(4,5) by (simp_all add: getPatchInfo_def)
  show ?thesis
  proof (cases "\<exists>p \<in> set ps. effective p = None")
    case True
    then have "\<exists>p \<in> set ps'. effective p = None" using st by simp
    then show ?thesis
      unfolding g using True by (simp add: patch_loop_panic)
  next
    case False
    then have a: "\<forall>p \<in> set ps. effective p \<noteq> None" and b: "\<forall>p \<in> set ps'. effective p \<noteq> None"
      using st by simp_all
    from patch_loop_result [OF assms(1) a, of c 0 "[]" "[]"]
    obtain segments paths where r:
      "patch_loop E c 0 ps ([], []) = Inr (segments, paths)"
      "fst ` set segments = concerned_names (regexp_MatchString E) c ps"
      "set paths = effective_paths ps" "distinct (map fst segments)" "distinct paths"
      by auto
    from patch_loop_result [OF assms(2) b, of c 0 "[]" "[]"]
    obtain segments' paths' where r':
      "patch_loop E' c 0 ps' ([], []) = Inr (segments', paths')"
      "fst ` set segments' = concerned_names (regexp_MatchString E') c ps'"
      "set paths' = effective_paths ps'" "distinct (map fst segments')" "distinct paths'"
      by auto
    show ?thesis
      unfolding g using r r'
      by (simp add: assms(3) concerned_names_cong [OF st] effective_paths_cong [OF st])
  qed
qed


lemma range_ok_env_with_patches: "range_ok (env_with_patches ps)"
  by (simp add: range_ok_def env_with_patches_def plain_env_def)

theorem resolution_independent_of_patch_order_witness:
  "range_ok (env_with_patches [patch_readme, patch_main, patch_readme]) \<and>
   range_ok (env_with_patches [patch_main, patch_readme, patch_readme]) \<and>
   mset [patch_main, patch_readme, patch_readme] = mset [patch_readme, patch_main, patch_readme] \<and>
   getPatchInfo (env_with_patches [patch_readme, patch_main, patch_readme])
     \<lparr>Segments = [(''docs'', seg_docs), (''code'', seg_code)]\<rparr> ''./'' ''master'' =
     Inr ([(''docs'', seg_docs), (''code'', seg_code)], [''README.md'', ''main.go'']) \<and>
   (\<exists>segments' paths'.
      getPatchInfo (env_with_patches [patch_main, patch_readme, patch_readme])
        \<lparr>Segments = [(''docs'', seg_docs), (''code'', seg_code)]\<rparr> ''./'' ''master'' =
        Inr (segments', paths') \<and>
      set (map fst segments') = {''docs'', ''code''} \<and>
      set paths' = {''README.md'', ''main.go''} \<and>
      distinct (map fst segments') \<and> distinct paths')"
proof -
  let ?E = "env_with_patches [patch_readme, patch_main, patch_readme]"
  let ?E' = "env_with_patches [patch_main, patch_readme, patch_readme]"
  let ?c = "\<lparr>Segments = [(''docs'', seg_docs), (''code'', seg_code)]\<rparr>"
  have m: "mset [patch_main, patch_readme, patch_readme] =
           mset [patch_readme, patch_main, patch_readme]"
    by simp
  have rx: "regexp_MatchString ?E' = regexp_MatchString ?E"
    by (simp add: env_with_patches_def)
  have g: "git ?E ''./'' ''master'' = FilePatches [patch_readme, patch_main, patch_readme]"
    "git ?E' ''./'' ''master'' = FilePatches [patch_main, patch_readme, patch_readme]"
    by (simp_all add: env_with_patches_def)
  have c1: "IsConcerned literal_engine seg_docs patch_readme ''README.md''"
    "\<not> IsConcerned literal_engine seg_code patch_readme ''README.md''"
    "\<not> IsConcerned literal_engine seg_docs patch_main ''main.go''"
    "IsConcerned literal_engine seg_code patch_main ''main.go''"
    by (simp_all add: IsConcerned_def IsFileNameMatch_def seg_docs_def seg_code_def
        zero_segment_def literal_engine_def unwrap_def sublist_code)
  have v: "getPatchInfo ?E ?c ''./'' ''master'' =
     Inr ([(''docs'', seg_docs), (''code'', seg_code)], [''README.md'', ''main.go''])"
    by (simp add: getPatchInfo_def env_with_patches_def plain_env_def patch_readme_def
        patch_main_def appendNew_def
        c1 [unfolded patch_readme_def patch_main_def])
  show ?thesis
    using resolution_independent_of_patch_order
      [OF range_ok_env_with_patches range_ok_env_with_patches rx g m, of ?c]
      range_ok_env_with_patches m
    unfolding v by auto
qed

text \<open>
  Claim C6. When the changeset yields no affected path, \<open>submit\<close> fails with
  "No files to submit", also when no segment matches; when it yields paths and no
  matching segment, \<open>submit\<close> fails with "No matching segments found for this patch"; the
  two errors are different values.
\<close>

theorem submit_distinguishes_no_files_from_no_owner:
  assumes "getPatchInfo E c repoPath revision = Inr (segments, files)"
  shows "(files = [] \<longrightarrow> submit E c repoPath revision = Inl (Error ''No files to submit'')) \<and>
         (files \<noteq> [] \<and> segments = [] \<longrightarrow>
            submit E c repoPath revision =
              Inl (Error ''No matching segments found for this patch'')) \<and>
         Error ''No files to submit'' \<noteq> Error ''No matching segments found for this patch''"
  using assms by (simp add: submit_def)

theorem submit_distinguishes_no_files_from_no_owner_witness:
  "getPatchInfo (env_with_patches []) \<lparr>Segments = [(''docs'', seg_docs)]\<rparr> ''./'' ''master'' =
     Inr ([], []) \<and>
   submit (env_with_patches []) \<lparr>Segments = [(''docs'', seg_docs)]\<rparr> ''./'' ''master'' =
     Inl (Error ''No files to submit'') \<and>
   getPatchInfo (env_with_patches [patch_licence]) \<lparr>Segments = [(''docs'', seg_docs)]\<rparr>
     ''./'' ''master'' = Inr ([], [''LICENCE'']) \<and>
   submit (env_with_patches [patch_licence]) \<lparr>Segments = [(''docs'', seg_docs)]\<rparr>
     ''./'' ''master'' = Inl (Error ''No matching segments found for this patch'')"
proof -
  let ?c = "\<lparr>Segments = [(''docs'', seg_docs)]\<rparr>"
  have a: "getPatchInfo (env_with_patches []) ?c ''./'' ''master'' = Inr ([], [])"
    by (simp add: getPatchInfo_def env_with_patches_def)
  have n: "\<not> IsConcerned literal_engine seg_docs patch_licence ''LICENCE''"
    by (simp add: IsConcerned_def IsFileNameMatch_def seg_docs_def zero_segment_def
        literal_engine_def unwrap_def sublist_code)
  have b: "getPatchInfo (env_with_patches [patch_licence]) ?c ''./'' ''master'' =
             Inr ([], [''LICENCE''])"
    by (simp add: getPatchInfo_def env_with_patches_def plain_env_def patch_licence_def
        appendNew_def n [unfolded patch_licence_def])
  show ?thesis
    using submit_distinguishes_no_files_from_no_owner [OF a]
      submit_distinguishes_no_files_from_no_owner [OF b] a b
    by simp
qed


section \<open>Properties of the configuration loader\<close>










section \<open>Properties of the model of regular expressions\<close>








lemma pre_stack_Nil [simp]: "pre_stack st = [] \<longleftrightarrow> st = []"
  by (induction st rule: pre_stack.induct) auto





























text \<open>
  Claim C9, as stated, fails for an entry that opens a quotation and does not close it:
  the quotation then takes in the \<^verbatim>\<open>.*\<close> that the rewriting appends. The entry made of a
  backslash and \<^verbatim>\<open>QTODO\<close> matches the line \<^verbatim>\<open>a TODO item\<close> of the diff content when Go reads
  it on its own, yet the rewritten entry does not match that content, and the loaded
  segment is not concerned by the patch.
\<close>

theorem open_quotation_not_wrapped:
  "initMaintainers (Inr [quoted_section]) =
     Inr \<lparr>Segments =
       [(''quoted'', zero_segment\<lparr>Name := ''quoted'', Chiefs := [''erin''],
                                  ContentPatterns := [''(?m).*'' @ backslash # ''QTODO.*'']\<rparr>)]\<rparr> \<and>
   go_syntax (backslash # ''QTODO'') =
     Some (False, OpConcat (OpLiteral CHR ''T'') (OpConcat (OpLiteral CHR ''O'')
       (OpConcat (OpLiteral CHR ''D'') (OpConcat (OpLiteral CHR ''O'') OpEmptyMatch)))) \<and>
   ''a TODO item'' \<in> set (Split (diffContent patch_notes) newline) \<and>
   fragment_engine (backslash # ''QTODO'') ''a TODO item'' = (True, None) \<and>
   fragment_engine (''(?m).*'' @ backslash # ''QTODO.*'') (diffContent patch_notes) = (False, None) \<and>
   \<not> IsConcerned fragment_engine
     (zero_segment\<lparr>Name := ''quoted'', Chiefs := [''erin''],
                   ContentPatterns := [''(?m).*'' @ backslash # ''QTODO.*'']\<rparr>)
     patch_notes ''notes.txt''"
proof -
  let ?P = "backslash # ''QTODO''"
  let ?W = "''(?m).*'' @ backslash # ''QTODO.*''"
  let ?r = "OpConcat (OpLiteral CHR ''T'') (OpConcat (OpLiteral CHR ''O'')
       (OpConcat (OpLiteral CHR ''D'') (OpConcat (OpLiteral CHR ''O'') OpEmptyMatch)))"
  have l: "initMaintainers (Inr [quoted_section]) =
     Inr \<lparr>Segments =
       [(''quoted'', zero_segment\<lparr>Name := ''quoted'', Chiefs := [''erin''],
                                  ContentPatterns := [?W]\<rparr>)]\<rparr>"
    by (simp add: initMaintainers_def quoted_section_def zero_segment_def wrap_content_pattern_def)
  have g: "go_syntax ?P = Some (False, ?r)"
    by (simp add: go_syntax_def ascii_def parse_body_def backslash_def)
  have line: "''a TODO item'' \<in> set (Split (diffContent patch_notes) newline)"
    by (simp add: diffContent_def patch_notes_def newline_def)
  have h1: "fragment_engine ?P ''a TODO item'' = (True, None)"
    unfolding fragment_engine_def g by (simp add: regex_search_def)
  have gw: "go_syntax ?W =
      Some (True, OpConcat (OpStar OpAnyCharNotNL) (OpConcat (OpLiteral CHR ''T'')
        (OpConcat (OpLiteral CHR ''O'') (OpConcat (OpLiteral CHR ''D'') (OpConcat (OpLiteral CHR ''O'')
          (OpConcat (OpLiteral CHR ''.'') (OpConcat (OpLiteral CHR ''*'') OpEmptyMatch)))))))"
    by (simp add: go_syntax_def ascii_def parse_body_def backslash_def parse_step_def token_of_def)
  have h2: "fragment_engine ?W (diffContent patch_notes) = (False, None)"
    unfolding fragment_engine_def gw
    by (simp add: regex_search_def diffContent_def patch_notes_def newline_def)
  have "\<not> hit fragment_engine ?W (diffContent patch_notes)"
    using h2 by (simp add: hit_def)
  then have n: "\<not> IsConcerned fragment_engine
     (zero_segment\<lparr>Name := ''quoted'', Chiefs := [''erin''], ContentPatterns := [?W]\<rparr>)
     patch_notes ''notes.txt''"
    by (simp add: IsConcerned_hit IsFileNameMatch_hit zero_segment_def)
  from l g line h1 h2 n show ?thesis by simp
qed

end
